theory Spec2Isabelle
  imports Complex_Main
begin

section \<open>Shared types (types.ts, in src/components/TreeElement.tsx)\<close>

text \<open>
  The display mode of the application. The source calls the assembled arrangement
  \<open>TREE\<close>; the specification calls it ASSEMBLED.
\<close>

datatype AppMode = TREE | SCATTERED | FOCUSED

text \<open>A two-dimensional point \<open>{ x, y }\<close>, as used for the hand position.\<close>

datatype point2 = Point2 (px: real) (py: real)

record HandGestureState =
  isFist :: bool
  isOpen :: bool
  isPinching :: bool
  handPosition :: point2
  pinchDistance :: real

section \<open>The mode state machine (App.tsx, in src/components/Scene3D.tsx: handleGestureUpdate)\<close>

text \<open>
  The part of the application state that \<open>handleGestureUpdate\<close> writes:
  the three \<open>useState\<close> cells \<open>mode\<close>, \<open>gestureStatus\<close> and
  \<open>currentHandState\<close>.
\<close>

record App =
  mode :: AppMode
  gestureStatus :: string
  currentHandState :: HandGestureState

text \<open>
  The functional updater passed to \<open>setMode\<close>: from the gesture and the previous
  mode to the next mode, together with the status string the branch passes to
  \<open>setGestureStatus\<close> (\<open>None\<close> on the one branch that sets no status: a
  pinch while the mode is \<open>TREE\<close>).
\<close>

definition gestureStateMachine ::
  "HandGestureState \<Rightarrow> AppMode \<Rightarrow> AppMode \<times> string option" where
  "gestureStateMachine state prevMode =
     (if isFist state then (TREE, Some ''Gesture: Fist (Assembling)'')
      else if isPinching state then
        (if prevMode \<noteq> TREE then (FOCUSED, Some ''Gesture: Pinch (Focusing)'')
         else (prevMode, None))
      else if isOpen state then (SCATTERED, Some ''Gesture: Open (Move to Rotate)'')
      else (prevMode, Some ''Detecting...''))"

definition handleGestureUpdate :: "HandGestureState \<Rightarrow> App \<Rightarrow> App" where
  "handleGestureUpdate state app =
     (let (m, status) = gestureStateMachine state (mode app)
      in app\<lparr> currentHandState := state,
              mode := m,
              gestureStatus := (case status of None \<Rightarrow> gestureStatus app | Some t \<Rightarrow> t) \<rparr>)"

text \<open>
  The invariant of \<open>GestureState\<close> in the data model: at most one of the three
  flags is true.
\<close>

definition exclusiveFlags :: "HandGestureState \<Rightarrow> bool" where
  "exclusiveFlags g =
     (\<not> (isFist g \<and> isOpen g) \<and> \<not> (isFist g \<and> isPinching g) \<and> \<not> (isOpen g \<and> isPinching g))"

section \<open>The gesture classifier (HandTracker.tsx, in src/components/TreeElement.tsx: hands.onResults)\<close>

text \<open>
  A landmark \<open>{ x, y, z }\<close> in normalised camera space, and the detector's result:
  \<open>multiHandLandmarks\<close> may be missing (\<open>None\<close>) or an array of hands, each an
  array of landmarks. Landmark coordinates are numbers delivered by the detector; the
  classifier only subtracts, multiplies and adds them and takes one square root of a sum
  of squares, so they are modelled as reals (rounding is not modelled).
\<close>

datatype landmark = Landmark (lx: real) (ly: real) (lz: real)

record Results =
  multiHandLandmarks :: "landmark list list option"

text \<open>
  Reading a property of \<open>landmarks[i]\<close> with \<open>i\<close> out of range throws a
  \<open>TypeError\<close> in the source; the callback then ends without calling
  \<open>onGestureUpdate\<close>.
\<close>

datatype error = TypeError

definition SMOOTH_FACTOR :: real where
  "SMOOTH_FACTOR = 0.3"

text \<open>Helper \<open>dist\<close>: Euclidean distance of two landmarks in the x-y plane.\<close>

definition dist :: "landmark list \<Rightarrow> nat \<Rightarrow> nat \<Rightarrow> real" where
  "dist landmarks idx1 idx2 =
     (let p1 = landmarks ! idx1; p2 = landmarks ! idx2
      in sqrt ((lx p1 - lx p2) ^ 2 + (ly p1 - ly p2) ^ 2))"

text \<open>Helper \<open>isCurled\<close>: the tip is closer to the wrist (landmark 0) than the joint.\<close>

definition isCurled :: "landmark list \<Rightarrow> nat \<Rightarrow> nat \<Rightarrow> bool" where
  "isCurled landmarks tipIdx pipIdx = (dist landmarks tipIdx 0 < dist landmarks pipIdx 0)"

definition curledCount :: "landmark list \<Rightarrow> nat" where
  "curledCount landmarks =
     (let indexCurled = isCurled landmarks 8 6;
          middleCurled = isCurled landmarks 12 10;
          ringCurled = isCurled landmarks 16 14;
          pinkyCurled = isCurled landmarks 20 18
      in length (filter (\<lambda>b. b) [indexCurled, middleCurled, ringCurled, pinkyCurled]))"

text \<open>
  The three flags, in the source's \<open>if / else if / else if\<close> order; all three start
  false.
\<close>

definition classify :: "landmark list \<Rightarrow> bool \<times> bool \<times> bool" where
  "classify landmarks =
     (let pinchDist = dist landmarks 4 8;
          isPinchGeo = (pinchDist < 0.06)
      in if isPinchGeo \<and> curledCount landmarks < 3 then (False, False, True)
         else if curledCount landmarks \<ge> 3 then (True, False, False)
         else if curledCount landmarks \<le> 1 then (False, True, False)
         else (False, False, False))"

text \<open>
  The target position read from landmark 9 (the x axis is mirrored, then both axes are
  mapped to the range from -1 to 1), and the smoothed position computed from it and the
  stored position.
\<close>

definition targetX :: "landmark \<Rightarrow> real" where
  "targetX l9 = (let palmX = 1 - lx l9 in (palmX - 0.5) * 2)"

definition targetY :: "landmark \<Rightarrow> real" where
  "targetY l9 = (let palmY = ly l9 in (palmY - 0.5) * 2)"

definition smoothPosition :: "landmark \<Rightarrow> point2 \<Rightarrow> point2" where
  "smoothPosition l9 prevPos =
     (let smoothX = px prevPos + (targetX l9 - px prevPos) * SMOOTH_FACTOR;
          smoothY = py prevPos + (targetY l9 - py prevPos) * SMOOTH_FACTOR
      in Point2 smoothX smoothY)"

definition noHand :: HandGestureState where
  "noHand = \<lparr> isFist = False, isOpen = False, isPinching = False,
              handPosition = Point2 0 0, pinchDistance = 1 \<rparr>"

text \<open>
  One call of the \<open>onResults\<close> callback. The state is the ref \<open>prevPos\<close>; the
  result is the new \<open>prevPos\<close> and either the gesture state passed to
  \<open>onGestureUpdate\<close> or the error thrown. Landmark 9 is read first (an array of at
  most 9 entries throws before \<open>prevPos\<close> is written); the helpers then read
  landmarks up to index 20 (an array of at most 20 entries throws after \<open>prevPos\<close>
  was written).
\<close>

definition onResults :: "Results \<Rightarrow> point2 \<Rightarrow> point2 \<times> (error + HandGestureState)" where
  "onResults res prevPos =
     (case multiHandLandmarks res of
        Some (landmarks # _) \<Rightarrow>
          if length landmarks \<le> 9 then (prevPos, Inl TypeError)
          else
            let smooth = smoothPosition (landmarks ! 9) prevPos
            in if length landmarks \<le> 20 then (smooth, Inl TypeError)
               else
                 (case classify landmarks of
                    (fist, opn, pinching) \<Rightarrow>
                      (smooth,
                       Inr \<lparr> isFist = fist, isOpen = opn, isPinching = pinching,
                             handPosition = smooth,
                             pinchDistance = dist landmarks 4 8 \<rparr>))
      | _ \<Rightarrow> (prevPos, Inr noHand))"

text \<open>
  The callback run on a sequence of detector results, threading \<open>prevPos\<close>: the final
  \<open>prevPos\<close> and the outcome of every call, in order.
\<close>

fun runFrames :: "Results list \<Rightarrow> point2 \<Rightarrow> point2 \<times> (error + HandGestureState) list" where
  "runFrames [] prevPos = (prevPos, [])"
| "runFrames (res # rest) prevPos =
     (case onResults res prevPos of
        (prevPos', out) \<Rightarrow>
          (case runFrames rest prevPos' of (final, outs) \<Rightarrow> (final, out # outs)))"

text \<open>
  The positions reported to \<open>onGestureUpdate\<close> by a sequence of outcomes, in order.
\<close>

fun reportedPositions :: "(error + HandGestureState) list \<Rightarrow> point2 list" where
  "reportedPositions [] = []"
| "reportedPositions (Inr g # outs) = handPosition g # reportedPositions outs"
| "reportedPositions (Inl e # outs) = reportedPositions outs"

text \<open>
  A detector result with a detected hand of at least 21 landmarks whose landmark 9 is
  \<open>l9\<close>: a frame of a sequence that holds the target position constant.
\<close>

definition handFrame :: "landmark \<Rightarrow> Results \<Rightarrow> bool" where
  "handFrame l9 res =
     (case multiHandLandmarks res of
        Some (landmarks # _) \<Rightarrow> 21 \<le> length landmarks \<and> landmarks ! 9 = l9
      | _ \<Rightarrow> False)"

text \<open>
  A sample frame of 21 landmarks: the wrist and the four finger tips (8, 12, 16, 20) at
  the origin, the thumb tip (4) and the four joints (6, 10, 14, 18) at distance 1.
\<close>

definition fistFrame :: "landmark list" where
  "fistFrame = [Landmark 0 0 0, Landmark 0 0 0, Landmark 0 0 0, Landmark 0 0 0,
      Landmark 1 0 0, Landmark 0 0 0, Landmark 1 0 0, Landmark 0 0 0,
      Landmark 0 0 0, Landmark 0 0 0, Landmark 1 0 0, Landmark 0 0 0,
      Landmark 0 0 0, Landmark 0 0 0, Landmark 1 0 0, Landmark 0 0 0,
      Landmark 0 0 0, Landmark 0 0 0, Landmark 1 0 0, Landmark 0 0 0,
      Landmark 0 0 0]"

section \<open>JavaScript numbers in the camera and transform computations\<close>

text \<open>
  The camera fitting and the transform interpolator divide, so their numbers can be
  infinite or NaN. A number is modelled as a real or one of the three special values of
  IEEE 754 arithmetic. The operations below are exact on finite values: overflow is not
  modelled, and rounding is applied where the frame callback blends a transform (see the
  section on rounding). The zero is the positive zero (no negative zero: the viewport
  sizes and the field of view are never negative).
\<close>

datatype jsnum = Finite real | Infinity | NegInfinity | NaN

instantiation jsnum :: "{plus, uminus, minus, times, divide}"
begin

fun plus_jsnum :: "jsnum \<Rightarrow> jsnum \<Rightarrow> jsnum" where
  "NaN + b = NaN"
| "a + NaN = NaN"
| "Finite a + Finite b = Finite (a + b)"
| "Infinity + NegInfinity = NaN"
| "NegInfinity + Infinity = NaN"
| "Infinity + b = Infinity"
| "a + Infinity = Infinity"
| "NegInfinity + b = NegInfinity"
| "a + NegInfinity = NegInfinity"

fun uminus_jsnum :: "jsnum \<Rightarrow> jsnum" where
  "- Finite a = Finite (- a)"
| "- Infinity = NegInfinity"
| "- NegInfinity = Infinity"
| "- NaN = NaN"

definition minus_jsnum :: "jsnum \<Rightarrow> jsnum \<Rightarrow> jsnum" where
  "a - b = a + (- b)" for a b :: jsnum

text \<open>The sign of a product with an infinite factor; NaN when the other factor is zero.\<close>

fun times_jsnum :: "jsnum \<Rightarrow> jsnum \<Rightarrow> jsnum" where
  "NaN * b = NaN"
| "a * NaN = NaN"
| "Finite a * Finite b = Finite (a * b)"
| "Finite a * Infinity = (if 0 < a then Infinity else if a < 0 then NegInfinity else NaN)"
| "Finite a * NegInfinity = (if 0 < a then NegInfinity else if a < 0 then Infinity else NaN)"
| "Infinity * Finite b = (if 0 < b then Infinity else if b < 0 then NegInfinity else NaN)"
| "NegInfinity * Finite b = (if 0 < b then NegInfinity else if b < 0 then Infinity else NaN)"
| "Infinity * Infinity = Infinity"
| "Infinity * NegInfinity = NegInfinity"
| "NegInfinity * Infinity = NegInfinity"
| "NegInfinity * NegInfinity = Infinity"

text \<open>
  Division: a finite nonzero number over zero is infinite with the sign of the numerator,
  zero over zero and infinite over infinite are NaN, finite over infinite is zero.
\<close>

fun divide_jsnum :: "jsnum \<Rightarrow> jsnum \<Rightarrow> jsnum" where
  "NaN div b = NaN"
| "a div NaN = NaN"
| "Finite a div Finite b =
     (if b \<noteq> 0 then Finite (a / b)
      else if 0 < a then Infinity else if a < 0 then NegInfinity else NaN)"
| "Finite a div Infinity = Finite 0"
| "Finite a div NegInfinity = Finite 0"
| "Infinity div Finite b = (if 0 \<le> b then Infinity else NegInfinity)"
| "NegInfinity div Finite b = (if 0 \<le> b then NegInfinity else Infinity)"
| "a div b = NaN"

instance ..

end

instantiation jsnum :: inverse
begin

definition inverse_jsnum :: "jsnum \<Rightarrow> jsnum" where
  "inverse a = Finite 1 div a" for a :: jsnum

instance ..

end

definition isFinite :: "jsnum \<Rightarrow> bool" where
  "isFinite a = (case a of Finite r \<Rightarrow> True | _ \<Rightarrow> False)"

text \<open>\<open>Math.max\<close> and \<open>Math.min\<close> of two numbers: NaN if either is NaN.\<close>

fun Math_max :: "jsnum \<Rightarrow> jsnum \<Rightarrow> jsnum" where
  "Math_max NaN b = NaN"
| "Math_max a NaN = NaN"
| "Math_max Infinity b = Infinity"
| "Math_max a Infinity = Infinity"
| "Math_max NegInfinity b = b"
| "Math_max a NegInfinity = a"
| "Math_max (Finite a) (Finite b) = Finite (max a b)"

fun Math_min :: "jsnum \<Rightarrow> jsnum \<Rightarrow> jsnum" where
  "Math_min NaN b = NaN"
| "Math_min a NaN = NaN"
| "Math_min NegInfinity b = NegInfinity"
| "Math_min a NegInfinity = NegInfinity"
| "Math_min Infinity b = b"
| "Math_min a Infinity = a"
| "Math_min (Finite a) (Finite b) = Finite (min a b)"

text \<open>\<open>Math.tan\<close> and \<open>Math.sin\<close>: NaN on an infinite or NaN argument.\<close>

fun Math_tan :: "jsnum \<Rightarrow> jsnum" where
  "Math_tan (Finite a) = Finite (tan a)"
| "Math_tan a = NaN"


definition Math_PI :: jsnum where
  "Math_PI = Finite pi"

section \<open>Rounding to doubles\<close>

text \<open>
  A JavaScript number is an IEEE 754 double: the result of an arithmetic operation is
  the exact result rounded to the nearest double, ties to the even significand.
  \<open>roundDouble\<close> is that rounding on the reals: a nonzero \<open>x\<close> with
  \<open>2 ^ e \<le> |x| < 2 ^ (e + 1)\<close> is rounded to a multiple of \<open>2 ^ (e - 52)\<close>, and
  below \<open>2 ^ -1022\<close> (the subnormal range) to a multiple of \<open>2 ^ -1074\<close>.
  Overflow to infinity is not modelled: a result of magnitude \<open>2 ^ 1024\<close> or more is
  rounded like any other, and the properties of the blending are stated for numbers of
  a magnitude at which no operation overflows.
\<close>

definition roundTiesToEven :: "real \<Rightarrow> int" where
  "roundTiesToEven x =
     (let f = \<lfloor>x\<rfloor>; d = x - of_int f
      in if d < 1 / 2 then f else if 1 / 2 < d then f + 1 else if even f then f else f + 1)"

definition roundDouble :: "real \<Rightarrow> real" where
  "roundDouble x =
     (if x = 0 then 0
      else (let e = max \<lfloor>log 2 \<bar>x\<bar>\<rfloor> (- 1022);
                ulp = 2 powr (of_int e - 52)
            in of_int (roundTiesToEven (x / ulp)) * ulp))"




section \<open>Camera fitting (src/components/Scene3D.tsx: AdaptiveCamera)\<close>

text \<open>
  The viewport size and the fields of the perspective camera that the effect reads and
  writes: the field of view in degrees and the z coordinate of the position.
\<close>

record Size =
  width :: jsnum
  height :: jsnum

record Camera =
  fov :: jsnum
  position_z :: jsnum

text \<open>
  The body of the effect of \<open>AdaptiveCamera\<close>, run whenever the size or the camera
  changes: the camera with its distance recomputed.
\<close>

definition AdaptiveCamera :: "Camera \<Rightarrow> Size \<Rightarrow> Camera" where
  "AdaptiveCamera camera size_v =
     (let TARGET_HEIGHT = Finite 18;
          TARGET_WIDTH = Finite 14;
          aspect = width size_v / height size_v;
          fovRad = fov camera * (Math_PI / Finite 180);
          distVertical = TARGET_HEIGHT / (Finite 2 * Math_tan (fovRad / Finite 2));
          distHorizontal = TARGET_WIDTH / (Finite 2 * Math_tan (fovRad / Finite 2) * aspect);
          finalDist = Math_max (Math_max distVertical distHorizontal) (Finite 20)
      in camera\<lparr> position_z := finalDist \<rparr>)"

section \<open>Scene objects and the transform interpolator (src/components/TreeElement.tsx: useFrame)\<close>

datatype Vector3 = Vector3 (vx: jsnum) (vy: jsnum) (vz: jsnum)

datatype Euler = Euler (ex: jsnum) (ey: jsnum) (ez: jsnum)

datatype Quaternion = Quaternion (qx: jsnum) (qy: jsnum) (qz: jsnum) (qw: jsnum)

datatype ObjectType = ball | gift | photo | candy | light | star

record TreeObjectData =
  id_obj :: string
  type_obj :: ObjectType
  color :: string
  textureUrl :: "string option"
  positionTree :: Vector3
  positionScattered :: Vector3
  rotationTree :: Euler
  rotationScattered :: Euler
  scale :: jsnum



definition multiplyScalar :: "Vector3 \<Rightarrow> jsnum \<Rightarrow> Vector3" where
  "multiplyScalar v s = Vector3 (vx v * s) (vy v * s) (vz v * s)"

definition degToRad :: "jsnum \<Rightarrow> jsnum" where
  "degToRad degrees = degrees * (Math_PI / Finite 180)"

definition Quaternion_invert :: "Quaternion \<Rightarrow> Quaternion" where
  "Quaternion_invert q =
     Quaternion (qx q * Finite (- 1)) (qy q * Finite (- 1)) (qz q * Finite (- 1)) (qw q)"

text \<open>
  The parent of a mesh, as far as the frame callback reads it: the map that applies the
  inverse of the parent's world matrix to a point, and the parent's world quaternion.
\<close>

record Object3D =
  applyMatrixWorldInverse :: "Vector3 \<Rightarrow> Vector3"
  worldQuaternion :: Quaternion




text \<open>
  The adaptive scale of the focused photo: 85 per cent of the smaller of the visible
  height and the visible width at distance 4 from the camera.
\<close>

definition focusScale :: "Camera \<Rightarrow> Size \<Rightarrow> jsnum" where
  "focusScale camera size_v =
     (let distFromCamera = Finite 4;
          vFov = degToRad (fov camera);
          visibleHeight = Finite 2 * Math_tan (vFov / Finite 2) * distFromCamera;
          visibleWidth = visibleHeight * (width size_v / height size_v)
      in Math_min visibleHeight visibleWidth * Finite 0.85)"

text \<open>
  The first half of the frame callback: the target transform of an object, from the
  mode and the held focus target (\<open>data.id === targetPhotoId\<close> holds when
  \<open>targetPhotoId\<close> is that string).
\<close>

record Targets =
  targetPos :: Vector3
  targetRot :: Euler
  targetScale :: jsnum
  useQuaternion :: bool
  targetQuaternion :: Quaternion

definition frameTargets ::
  "Camera \<Rightarrow> Size \<Rightarrow> TreeObjectData \<Rightarrow> AppMode \<Rightarrow> string option \<Rightarrow> Object3D option \<Rightarrow> Targets" where
  "frameTargets camera size_v data mode_v targetPhotoId_v parent_v =
     (let t0 = \<lparr> targetPos = (if mode_v = TREE then positionTree data else positionScattered data),
                  targetRot = (if mode_v = TREE then rotationTree data else rotationScattered data),
                  targetScale = scale data,
                  useQuaternion = False,
                  targetQuaternion = Quaternion (Finite 0) (Finite 0) (Finite 0) (Finite 1) \<rparr>;
          t1 = (if type_obj data = star \<and> mode_v = SCATTERED
                then t0\<lparr> targetPos := Vector3 (Finite 0) (Finite 0) (Finite 0) \<rparr> else t0)
      in if mode_v = FOCUSED \<and> type_obj data = photo then
           (if targetPhotoId_v = Some (id_obj data) then
              (let distFromCamera = Finite 4;
                   worldTargetPos = Vector3 (Finite 0) (Finite 0) (position_z camera - distFromCamera);
                   t2 = (case parent_v of
                           Some par \<Rightarrow>
                             t1\<lparr> targetPos := applyMatrixWorldInverse par worldTargetPos,
                                 targetQuaternion := Quaternion_invert (worldQuaternion par),
                                 useQuaternion := True \<rparr>
                         | None \<Rightarrow> t1)
               in t2\<lparr> targetScale := focusScale camera size_v \<rparr>)
            else t1\<lparr> targetPos := multiplyScalar (positionScattered data) (Finite 1.5),
                     targetScale := scale data * Finite 0.8 \<rparr>)
         else t1)"








text \<open>Sample inputs: a camera, a viewport, a ball and a photo.\<close>

definition sampleCamera :: Camera where
  "sampleCamera = \<lparr> fov = Finite 50, position_z = Finite 25 \<rparr>"

definition sampleSize :: Size where
  "sampleSize = \<lparr> width = Finite 800, height = Finite 600 \<rparr>"

definition sampleBall :: TreeObjectData where
  "sampleBall =
     \<lparr> id_obj = ''ball-1'', type_obj = ball, color = ''#FFD700'', textureUrl = None,
       positionTree = Vector3 (Finite 1) (Finite 2) (Finite 3),
       positionScattered = Vector3 (Finite 2) (Finite 4) (Finite 6),
       rotationTree = Euler (Finite 0) (Finite 0) (Finite 0),
       rotationScattered = Euler (Finite 1) (Finite 1) (Finite 0),
       scale = Finite 0.5 \<rparr>"

definition samplePhoto :: TreeObjectData where
  "samplePhoto =
     \<lparr> id_obj = ''photo-1'', type_obj = photo, color = ''#F0F0F0'', textureUrl = Some ''a.png'',
       positionTree = Vector3 (Finite 1) (Finite 2) (Finite 3),
       positionScattered = Vector3 (Finite 2) (Finite 4) (Finite 6),
       rotationTree = Euler (Finite 0) (Finite 1) (Finite 0),
       rotationScattered = Euler (Finite 1) (Finite 1) (Finite 0),
       scale = Finite 1.5 \<rparr>"








section \<open>The object layout generator (utils/math.ts, in src/components/Scene3D.tsx: generateTreeData)\<close>

text \<open>
  \<open>generateTreeData\<close> calls \<open>uuidv4 ()\<close> and \<open>Math.random ()\<close>. Their results
  are parameters: \<open>uuids k\<close> and \<open>randoms k\<close> are the results of the \<open>k\<close>-th
  call of each during one run, and two counters are threaded through the run. The
  generator divides only by nonzero numbers (220, 12, the number of photos plus one, a
  nonzero length), so it computes in the reals; the results are stored as finite numbers.
\<close>

definition COLORS_GOLD :: string where "COLORS_GOLD = ''#FFD700''"
definition COLORS_RED :: string where "COLORS_RED = ''#DE2910''"
definition COLORS_WHITE :: string where "COLORS_WHITE = ''#F0F0F0''"
definition COLORS_LIGHT_WARM :: string where "COLORS_LIGHT_WARM = ''#ffddaa''"
definition COLORS_STAR_CREAM :: string where "COLORS_STAR_CREAM = ''#FFFACD''"

definition TREE_HEIGHT :: real where "TREE_HEIGHT = 12"
definition TREE_RADIUS_BASE :: real where "TREE_RADIUS_BASE = 4.5"
definition baseObjectCount :: nat where "baseObjectCount = 220"

type_synonym vec = "real \<times> real \<times> real"

definition toVector3 :: "vec \<Rightarrow> Vector3" where
  "toVector3 v = (case v of (x, y, z) \<Rightarrow> Vector3 (Finite x) (Finite y) (Finite z))"

definition toEuler :: "vec \<Rightarrow> Euler" where
  "toEuler v = (case v of (x, y, z) \<Rightarrow> Euler (Finite x) (Finite y) (Finite z))"

text \<open>Helper \<open>getTreePos\<close>: index to position on the cone spiral.\<close>

definition getTreePos :: "nat \<Rightarrow> nat \<Rightarrow> vec" where
  "getTreePos i total_v =
     (let y = - TREE_HEIGHT / 2 + (real i / real total_v) * TREE_HEIGHT;
          radius = TREE_RADIUS_BASE * (1 - (y + TREE_HEIGHT / 2) / TREE_HEIGHT);
          angle = real i * 0.5;
          x = cos angle * radius;
          z = sin angle * radius
      in (x, y, z))"

text \<open>
  Helper \<open>getScatteredPos\<close>: three random draws, starting at draw \<open>r\<close>; the
  position and the next draw.
\<close>

definition getScatteredPos :: "(nat \<Rightarrow> real) \<Rightarrow> nat \<Rightarrow> vec \<times> nat" where
  "getScatteredPos randoms r =
     (((randoms r - 0.5) * 20, (randoms (r + 1) - 0.5) * 20, (randoms (r + 2) - 0.5) * 10),
      r + 3)"

text \<open>
  \<open>Vector3.normalize\<close> of three.js divides by the length, or by 1 when the length is
  zero; \<open>Math.atan2 (y, x)\<close> is the angle of the point \<open>(x, y)\<close>.
\<close>

definition normalize :: "vec \<Rightarrow> vec" where
  "normalize v =
     (case v of (x, y, z) \<Rightarrow>
        (let len = sqrt (x * x + y * y + z * z);
             d = (if len = 0 then 1 else len)
         in (x * (1 / d), y * (1 / d), z * (1 / d))))"

definition Math_atan2 :: "real \<Rightarrow> real \<Rightarrow> real" where
  "Math_atan2 y x =
     (if 0 < x then arctan (y / x)
      else if x < 0 \<and> 0 \<le> y then arctan (y / x) + pi
      else if x < 0 then arctan (y / x) - pi
      else if 0 < y then pi / 2
      else if y < 0 then - (pi / 2)
      else 0)"

text \<open>Step 0: the star, with the first identifier.\<close>

definition starObject :: "(nat \<Rightarrow> string) \<Rightarrow> nat \<Rightarrow> TreeObjectData" where
  "starObject uuids u =
     \<lparr> id_obj = uuids u, type_obj = star, color = COLORS_STAR_CREAM, textureUrl = None,
       positionTree = toVector3 (0, TREE_HEIGHT / 2 + 0.5, 0),
       positionScattered = toVector3 (0, 0, 0),
       rotationTree = toEuler (0, 0, 0),
       rotationScattered = toEuler (0, 0, 0),
       scale = Finite 2.5 \<rparr>"

text \<open>
  Step 1, the body of \<open>photoUrls.forEach\<close>: the photo with index \<open>index\<close> of
  \<open>count\<close> photos, at counters \<open>(u, r)\<close>; the object and the counters after it.
  \<open>radialDir.multiplyScalar (0.8)\<close> changes \<open>radialDir\<close> in place, so the facing
  angle is taken of the scaled vector.
\<close>

definition photoObject ::
  "(nat \<Rightarrow> string) \<Rightarrow> (nat \<Rightarrow> real) \<Rightarrow> nat \<Rightarrow> string \<times> nat \<Rightarrow> nat \<times> nat
   \<Rightarrow> TreeObjectData \<times> (nat \<times> nat)" where
  "photoObject uuids randoms count ui c =
     (case (ui, c) of ((url, index), (u, r)) \<Rightarrow>
        (let step = baseObjectCount div (count + 1);
             treeIdx = (index + 1) * step;
             basePos = getTreePos treeIdx baseObjectCount;
             radialDir0 = normalize (fst basePos, 0, snd (snd basePos));
             radialDir = (fst radialDir0 * 0.8, fst (snd radialDir0) * 0.8, snd (snd radialDir0) * 0.8);
             surfacePos = (fst basePos + fst radialDir,
                           fst (snd basePos) + fst (snd radialDir),
                           snd (snd basePos) + snd (snd radialDir));
             facingAngle = Math_atan2 (fst radialDir) (snd (snd radialDir));
             sp = getScatteredPos randoms r;
             r1 = snd sp
         in (\<lparr> id_obj = uuids u, type_obj = photo, color = COLORS_WHITE, textureUrl = Some url,
               positionTree = toVector3 surfacePos,
               positionScattered = toVector3 (fst sp),
               rotationTree = toEuler (0, facingAngle, 0),
               rotationScattered = toEuler (randoms r1 * pi, randoms (r1 + 1) * pi, 0),
               scale = Finite 1.5 \<rparr>,
             (u + 1, r1 + 2))))"

fun photoObjects ::
  "(nat \<Rightarrow> string) \<Rightarrow> (nat \<Rightarrow> real) \<Rightarrow> nat \<Rightarrow> (string \<times> nat) list \<Rightarrow> nat \<times> nat
   \<Rightarrow> TreeObjectData list \<times> (nat \<times> nat)" where
  "photoObjects uuids randoms count [] c = ([], c)"
| "photoObjects uuids randoms count (ui # rest) c =
     (case photoObject uuids randoms count ui c of
        (obj, c1) \<Rightarrow>
          (case photoObjects uuids randoms count rest c1 of
             (objs, c2) \<Rightarrow> (obj # objs, c2)))"

text \<open>
  Step 2, the body of the loop over the 220 ornaments: the ornament with index \<open>i\<close>
  at counters \<open>(u, r)\<close>. A ball draws one more random number (for its colour) than the
  other types.
\<close>

definition ornamentObject ::
  "(nat \<Rightarrow> string) \<Rightarrow> (nat \<Rightarrow> real) \<Rightarrow> nat \<Rightarrow> nat \<times> nat \<Rightarrow> TreeObjectData \<times> (nat \<times> nat)" where
  "ornamentObject uuids randoms i c =
     (case c of (u, r) \<Rightarrow>
        (let rr = randoms r;
             scale0 = 0.3 + randoms (r + 1) * 0.3;
             (type_v, color_v, scale_v, r2) =
               (if rr > 0.85 then (gift, COLORS_RED, 0.5, r + 2)
                else if rr > 0.75 then (candy, COLORS_WHITE, 0.4, r + 2)
                else if rr > 0.55 then (light, COLORS_LIGHT_WARM, 0.15, r + 2)
                else (ball, (if randoms (r + 2) > 0.5 then COLORS_RED else COLORS_GOLD),
                      scale0, r + 3));
             p = getTreePos i baseObjectCount;
             x = fst p + (randoms r2 - 0.5) * 0.5;
             z = snd (snd p) + (randoms (r2 + 1) - 0.5) * 0.5;
             y = fst (snd p) + (randoms (r2 + 2) - 0.5) * 0.5;
             treePos = (if type_v = light then (x * 0.95, y * 0.95, z * 0.95) else (x, y, z));
             sp = getScatteredPos randoms (r2 + 3);
             r3 = snd sp
         in (\<lparr> id_obj = uuids u, type_obj = type_v, color = color_v, textureUrl = None,
               positionTree = toVector3 treePos,
               positionScattered = toVector3 (fst sp),
               rotationTree = toEuler (randoms r3, randoms (r3 + 1), randoms (r3 + 2)),
               rotationScattered = toEuler (randoms (r3 + 3) * pi, randoms (r3 + 4) * pi, 0),
               scale = Finite scale_v \<rparr>,
             (u + 1, r3 + 5))))"

fun ornamentObjects ::
  "(nat \<Rightarrow> string) \<Rightarrow> (nat \<Rightarrow> real) \<Rightarrow> nat list \<Rightarrow> nat \<times> nat
   \<Rightarrow> TreeObjectData list \<times> (nat \<times> nat)" where
  "ornamentObjects uuids randoms [] c = ([], c)"
| "ornamentObjects uuids randoms (i # rest) c =
     (case ornamentObject uuids randoms i c of
        (obj, c1) \<Rightarrow>
          (case ornamentObjects uuids randoms rest c1 of
             (objs, c2) \<Rightarrow> (obj # objs, c2)))"

definition generateTreeData ::
  "(nat \<Rightarrow> string) \<Rightarrow> (nat \<Rightarrow> real) \<Rightarrow> string list \<Rightarrow> TreeObjectData list" where
  "generateTreeData uuids randoms photoUrls =
     (let star_v = starObject uuids 0;
          ps = photoObjects uuids randoms (length photoUrls)
                 (zip photoUrls [0 ..< length photoUrls]) (1, 0);
          os = ornamentObjects uuids randoms [0 ..< baseObjectCount] (snd ps)
      in star_v # fst ps @ fst os)"

section \<open>Focus selection (src/components/Scene3D.tsx: SceneContent)\<close>

text \<open>
  The three state cells of \<open>SceneContent\<close>. The props \<open>mode\<close> and \<open>photos\<close>
  are arguments of the effects.
\<close>

record SceneContent =
  objects :: "TreeObjectData list"
  viewedPhotoIds :: "string set"
  targetPhotoId :: "string option"

text \<open>
  The first effect, run when \<open>photos\<close> changes: all objects are generated anew and the
  viewed history is emptied. \<open>targetPhotoId\<close> is not written.
\<close>

definition photosEffect ::
  "(nat \<Rightarrow> string) \<Rightarrow> (nat \<Rightarrow> real) \<Rightarrow> string list \<Rightarrow> SceneContent \<Rightarrow> SceneContent" where
  "photosEffect uuids randoms photos s =
     s\<lparr> objects := generateTreeData uuids randoms photos, viewedPhotoIds := {} \<rparr>"

text \<open>
  JavaScript truthiness of \<open>targetPhotoId\<close>: \<open>null\<close> and the empty string are falsy.
\<close>

definition truthy :: "string option \<Rightarrow> bool" where
  "truthy t = (case t of None \<Rightarrow> False | Some str \<Rightarrow> str \<noteq> [])"

text \<open>
  The candidates of a selection: the photos not yet viewed, or all photos (with the
  history to be reset) when every photo has been viewed.
\<close>

definition photoObjs :: "SceneContent \<Rightarrow> TreeObjectData list" where
  "photoObjs s = filter (\<lambda>obj. type_obj obj = photo) (objects s)"

definition candidates :: "SceneContent \<Rightarrow> TreeObjectData list \<times> bool" where
  "candidates s =
     (let unviewed = filter (\<lambda>p. id_obj p \<notin> viewedPhotoIds s) (photoObjs s)
      in if length unviewed = 0 then (photoObjs s, True) else (unviewed, False))"

text \<open>
  The second effect, for the mode \<open>mode_v\<close>; \<open>random\<close> is the result of
  \<open>Math.random ()\<close>. An index outside the candidates reads \<open>undefined\<close>, and
  \<open>randomPhoto.id\<close> then throws before any state is written.
\<close>

definition focusEffect :: "AppMode \<Rightarrow> real \<Rightarrow> SceneContent \<Rightarrow> error + SceneContent" where
  "focusEffect mode_v random s =
     (if mode_v = FOCUSED then
        (if \<not> truthy (targetPhotoId s) then
           (if length (photoObjs s) > 0 then
              (case candidates s of
                 (cands, shouldResetHistory) \<Rightarrow>
                   (let idx = \<lfloor>random * real (length cands)\<rfloor>
                    in if 0 \<le> idx \<and> nat idx < length cands then
                         (let randomPhoto = cands ! nat idx
                          in Inr (s\<lparr> targetPhotoId := Some (id_obj randomPhoto),
                                     viewedPhotoIds :=
                                       insert (id_obj randomPhoto)
                                         (if shouldResetHistory then {} else viewedPhotoIds s) \<rparr>))
                       else Inl TypeError))
            else Inr s)
         else Inr s)
      else (if truthy (targetPhotoId s) then Inr (s\<lparr> targetPhotoId := None \<rparr>) else Inr s))"

text \<open>
  The second effect run for a sequence of renders, each with its mode and the random
  number a selection would draw: the identifiers newly selected as focus target, in
  order, and the final state. A run ends at the first error.
\<close>

fun runFocus ::
  "(AppMode \<times> real) list \<Rightarrow> SceneContent \<Rightarrow> error + (string list \<times> SceneContent)" where
  "runFocus [] s = Inr ([], s)"
| "runFocus ((mode_v, random) # rest) s =
     (case focusEffect mode_v random s of
        Inl e \<Rightarrow> Inl e
      | Inr s1 \<Rightarrow>
          (case runFocus rest s1 of
             Inl e \<Rightarrow> Inl e
           | Inr (selected, s2) \<Rightarrow>
               Inr ((if targetPhotoId s1 \<noteq> targetPhotoId s
                     then (case targetPhotoId s1 of Some t \<Rightarrow> [t] | None \<Rightarrow> [])
                     else []) @ selected, s2)))"

text \<open>
  No repetition within a round: in a sequence of selections cut into consecutive rounds
  of \<open>n\<close> (the first \<open>n\<close> selections, the next \<open>n\<close>, and so on), no two
  selections of the same round are equal.
\<close>

definition noRepeatWithinRounds :: "nat \<Rightarrow> 'a list \<Rightarrow> bool" where
  "noRepeatWithinRounds n xs =
     (\<forall>j<length xs. \<forall>i<j. i div n = j div n \<longrightarrow> xs ! i \<noteq> xs ! j)"

text \<open>
  A sample scene of three photos \<open>A\<close>, \<open>B\<close>, \<open>C\<close> and a ball, nothing viewed, no
  focus target; a sample sequence of renders that enters FOCUSED four times; and sample
  results of \<open>uuidv4 ()\<close> and \<open>Math.random ()\<close>.
\<close>

definition sampleScene :: SceneContent where
  "sampleScene =
     \<lparr> objects = [samplePhoto\<lparr> id_obj := ''A'' \<rparr>, sampleBall,
                   samplePhoto\<lparr> id_obj := ''B'' \<rparr>, samplePhoto\<lparr> id_obj := ''C'' \<rparr>],
       viewedPhotoIds = {},
       targetPhotoId = None \<rparr>"

definition sampleRenders :: "(AppMode \<times> real) list" where
  "sampleRenders =
     [(FOCUSED, 0), (FOCUSED, 0.5), (SCATTERED, 0), (FOCUSED, 0), (TREE, 0), (FOCUSED, 0),
      (SCATTERED, 0), (FOCUSED, 0.9)]"

definition sampleUuids :: "nat \<Rightarrow> string" where
  "sampleUuids k = CHR ''u'' # replicate k CHR ''x''"

definition sampleRandoms :: "nat \<Rightarrow> real" where
  "sampleRandoms k = 0.5"

section \<open>Properties of the mode state machine\<close>

lemma mode_handleGestureUpdate:
  "mode (handleGestureUpdate g app) = fst (gestureStateMachine g (mode app))"
  by (simp add: handleGestureUpdate_def split: prod.split)

text \<open>
  The transition table in the source's own priority order (fist, then pinch, then open),
  for any combination of the three flags.
\<close>

lemma gestureStateMachine_priority:
  "fst (gestureStateMachine g prev) =
     (if isFist g then TREE
      else if isPinching g then (if prev = TREE then prev else FOCUSED)
      else if isOpen g then SCATTERED
      else prev)"
  by (simp add: gestureStateMachine_def)

text \<open>
  Claim C1. For every gesture state (at most one flag set, as the data model of
  \<open>GestureState\<close> requires and as the classifier produces) and every previous
  mode, the new mode is: \<open>TREE\<close> (ASSEMBLED) when \<open>isFist\<close> is true;
  \<open>SCATTERED\<close> when \<open>isFist\<close> is false and \<open>isOpen\<close> is true;
  \<open>FOCUSED\<close> when \<open>isPinching\<close> is true and the previous mode is not
  \<open>TREE\<close>; the previous mode when \<open>isPinching\<close> is true and the previous mode
  is \<open>TREE\<close>; and the previous mode when no flag is true.
\<close>

theorem C1_mode_state_machine:
  assumes "exclusiveFlags g"
  shows "(isFist g \<longrightarrow> mode (handleGestureUpdate g app) = TREE)
       \<and> (\<not> isFist g \<and> isOpen g \<longrightarrow> mode (handleGestureUpdate g app) = SCATTERED)
       \<and> (isPinching g \<and> mode app \<noteq> TREE \<longrightarrow> mode (handleGestureUpdate g app) = FOCUSED)
       \<and> (isPinching g \<and> mode app = TREE \<longrightarrow> mode (handleGestureUpdate g app) = mode app)
       \<and> (\<not> isFist g \<and> \<not> isOpen g \<and> \<not> isPinching g
            \<longrightarrow> mode (handleGestureUpdate g app) = mode app)"
  using assms
  by (auto simp add: mode_handleGestureUpdate gestureStateMachine_priority exclusiveFlags_def)

theorem C1_mode_state_machine_witness:
  "mode (handleGestureUpdate (noHand\<lparr>isFist := True\<rparr>)
           \<lparr>mode = FOCUSED, gestureStatus = [], currentHandState = noHand\<rparr>) = TREE
 \<and> mode (handleGestureUpdate (noHand\<lparr>isOpen := True\<rparr>)
           \<lparr>mode = FOCUSED, gestureStatus = [], currentHandState = noHand\<rparr>) = SCATTERED
 \<and> mode (handleGestureUpdate (noHand\<lparr>isPinching := True\<rparr>)
           \<lparr>mode = SCATTERED, gestureStatus = [], currentHandState = noHand\<rparr>) = FOCUSED
 \<and> mode (handleGestureUpdate (noHand\<lparr>isPinching := True\<rparr>)
           \<lparr>mode = TREE, gestureStatus = [], currentHandState = noHand\<rparr>) = TREE
 \<and> mode (handleGestureUpdate noHand
           \<lparr>mode = FOCUSED, gestureStatus = [], currentHandState = noHand\<rparr>) = FOCUSED"
  using
    C1_mode_state_machine [of "noHand\<lparr>isFist := True\<rparr>"
      "\<lparr>mode = FOCUSED, gestureStatus = [], currentHandState = noHand\<rparr>"]
    C1_mode_state_machine [of "noHand\<lparr>isOpen := True\<rparr>"
      "\<lparr>mode = FOCUSED, gestureStatus = [], currentHandState = noHand\<rparr>"]
    C1_mode_state_machine [of "noHand\<lparr>isPinching := True\<rparr>"
      "\<lparr>mode = SCATTERED, gestureStatus = [], currentHandState = noHand\<rparr>"]
    C1_mode_state_machine [of "noHand\<lparr>isPinching := True\<rparr>"
      "\<lparr>mode = TREE, gestureStatus = [], currentHandState = noHand\<rparr>"]
    C1_mode_state_machine [of "noHand"
      "\<lparr>mode = FOCUSED, gestureStatus = [], currentHandState = noHand\<rparr>"]
  by (simp add: exclusiveFlags_def noHand_def)

section \<open>Properties of the gesture classifier\<close>

lemma onResults_exclusive: "snd (onResults res p) = Inr g \<Longrightarrow> exclusiveFlags g"
  by (auto simp: onResults_def exclusiveFlags_def noHand_def Let_def classify_def split: option.splits list.splits if_splits prod.splits)

lemma smoothPosition_px: "px (smoothPosition l p) - targetX l = 0.7 * (px p - targetX l)"
  by (simp add: smoothPosition_def SMOOTH_FACTOR_def Let_def field_simps)

lemma smoothPosition_py: "py (smoothPosition l p) - targetY l = 0.7 * (py p - targetY l)"
  by (simp add: smoothPosition_def SMOOTH_FACTOR_def Let_def field_simps)

lemma onResults_handFrame:
  assumes "handFrame l9 res"
  shows "\<exists>g. onResults res p = (smoothPosition l9 p, Inr g) \<and> handPosition g = smoothPosition l9 p"
  using assms
  by (auto simp: handFrame_def onResults_def Let_def split: option.splits list.splits prod.splits)

lemma runFrames_handFrames:
  assumes "\<forall>res\<in>set frames. handFrame l9 res"
  shows "fst (runFrames frames p) = (smoothPosition l9 ^^ length frames) p
       \<and> reportedPositions (snd (runFrames frames p)) =
           map (\<lambda>k. (smoothPosition l9 ^^ Suc k) p) [0..<length frames]"
  using assms
proof (induction frames arbitrary: p)
  case Nil
  then show ?case by simp
next
  case (Cons res rest)
  from Cons.prems have hf: "handFrame l9 res" and rest: "\<forall>r\<in>set rest. handFrame l9 r"
    by simp_all
  from onResults_handFrame [OF hf, of p] obtain g where
    g: "onResults res p = (smoothPosition l9 p, Inr g)" "handPosition g = smoothPosition l9 p"
    by blast
  from Cons.IH [OF rest, of "smoothPosition l9 p"]
  have ih1: "fst (runFrames rest (smoothPosition l9 p)) = (smoothPosition l9 ^^ length rest) (smoothPosition l9 p)"
   and ih2: "reportedPositions (snd (runFrames rest (smoothPosition l9 p))) =
           map (\<lambda>k. (smoothPosition l9 ^^ Suc k) (smoothPosition l9 p)) [0..<length rest]"
    by simp_all
  have m: "map (\<lambda>k. (smoothPosition l9 ^^ Suc k) p) [0..<length (res # rest)]
      = smoothPosition l9 p # map (\<lambda>k. (smoothPosition l9 ^^ Suc k) (smoothPosition l9 p)) [0..<length rest]"
    by (simp only: length_Cons map_upt_Suc) (simp add: funpow_swap1)
  show ?case
    unfolding m using g ih1 ih2
    by (cases "runFrames rest (smoothPosition l9 p)") (simp add: funpow_swap1)
qed

lemma iter_px: "px ((smoothPosition l ^^ n) p) - targetX l = 0.7 ^ n * (px p - targetX l)"
  by (induction n) (simp_all add: smoothPosition_px)

lemma iter_py: "py ((smoothPosition l ^^ n) p) - targetY l = 0.7 ^ n * (py p - targetY l)"
  by (induction n) (simp_all add: smoothPosition_py)


lemma positions_nth:
  assumes "\<forall>res\<in>set frames. handFrame l9 res" and "k \<le> length frames"
  shows "(prev # reportedPositions (snd (runFrames frames prev))) ! k = (smoothPosition l9 ^^ k) prev"
proof (cases k)
  case 0
  then show ?thesis by simp
next
  case (Suc j)
  with assms(2) have "j < length frames" by simp
  then show ?thesis
    using runFrames_handFrames [OF assms(1), of prev] Suc by simp
qed

lemma ema_step_between:
  fixes x t :: real
  assumes "x' - t = 0.7 * (x - t)"
  shows "(x \<le> t \<longrightarrow> x \<le> x' \<and> x' \<le> t) \<and> (t \<le> x \<longrightarrow> t \<le> x' \<and> x' \<le> x)"
  using assms by auto

lemma ema_reaches:
  fixes c :: real
  assumes "0 < e"
  shows "\<exists>N. \<forall>n\<ge>N. \<bar>0.7 ^ n * c\<bar> < e"
proof -
  have "(\<lambda>n. (0.7::real) ^ n) \<longlonglongrightarrow> 0"
    by (rule LIMSEQ_realpow_zero) simp_all
  then have "(\<lambda>n. (0.7::real) ^ n * c) \<longlonglongrightarrow> 0 * c"
    by (intro tendsto_mult tendsto_const)
  then have "(\<lambda>n. (0.7::real) ^ n * c) \<longlonglongrightarrow> 0" by simp
  from LIMSEQ_D [OF this assms] show ?thesis by simp
qed

text \<open>
  Claim C8. For every stored position \<open>prev\<close> and every sequence of detected-hand
  frames that hold landmark 9 (hence the target position) constant, every frame reports a
  position; each reported coordinate is \<open>a + (target - a) * 0.3\<close> for the
  coordinate \<open>a\<close> before it (the stored one for the first frame), lies between
  \<open>a\<close> and the target (it moves toward the target and never passes it), and its
  distance to the target is \<open>0.7 ^ (k + 1)\<close> times the initial distance; and for
  every positive tolerance, long enough such sequences end within it of the target.
\<close>

theorem C8_ema:
  assumes "\<forall>res\<in>set frames. handFrame l9 res"
  shows "length (reportedPositions (snd (runFrames frames prev))) = length frames
    \<and> (\<forall>k<length frames.
          (let xs = prev # reportedPositions (snd (runFrames frames prev));
               a = xs ! k; b = xs ! Suc k
           in px b = px a + (targetX l9 - px a) * 0.3
            \<and> py b = py a + (targetY l9 - py a) * 0.3
            \<and> (px a \<le> targetX l9 \<longrightarrow> px a \<le> px b \<and> px b \<le> targetX l9)
            \<and> (targetX l9 \<le> px a \<longrightarrow> targetX l9 \<le> px b \<and> px b \<le> px a)
            \<and> (py a \<le> targetY l9 \<longrightarrow> py a \<le> py b \<and> py b \<le> targetY l9)
            \<and> (targetY l9 \<le> py a \<longrightarrow> targetY l9 \<le> py b \<and> py b \<le> py a)
            \<and> \<bar>px b - targetX l9\<bar> = 0.7 ^ Suc k * \<bar>px prev - targetX l9\<bar>
            \<and> \<bar>py b - targetY l9\<bar> = 0.7 ^ Suc k * \<bar>py prev - targetY l9\<bar>))
    \<and> (\<forall>e>0. \<exists>N. \<forall>fs. (\<forall>res\<in>set fs. handFrame l9 res) \<and> N \<le> length fs \<longrightarrow>
          \<bar>px (fst (runFrames fs prev)) - targetX l9\<bar> < e
        \<and> \<bar>py (fst (runFrames fs prev)) - targetY l9\<bar> < e)"
proof (intro conjI allI impI)
  show "length (reportedPositions (snd (runFrames frames prev))) = length frames"
    using runFrames_handFrames [OF assms, of prev] by simp
next
  fix k assume k: "k < length frames"
  let ?xs = "prev # reportedPositions (snd (runFrames frames prev))"
  have a: "?xs ! k = (smoothPosition l9 ^^ k) prev"
    using positions_nth [OF assms, where k=k and prev=prev] k by simp
  have b: "?xs ! Suc k = smoothPosition l9 (?xs ! k)"
    using positions_nth [OF assms, where k="Suc k" and prev=prev] k a by simp
  have sx: "px (?xs ! Suc k) - targetX l9 = 0.7 * (px (?xs ! k) - targetX l9)"
    unfolding b by (rule smoothPosition_px)
  have sy: "py (?xs ! Suc k) - targetY l9 = 0.7 * (py (?xs ! k) - targetY l9)"
    unfolding b by (rule smoothPosition_py)
  have cx: "px (?xs ! Suc k) - targetX l9 = 0.7 ^ Suc k * (px prev - targetX l9)"
    using sx a iter_px [where l=l9 and n=k and p=prev] by simp
  have cy: "py (?xs ! Suc k) - targetY l9 = 0.7 ^ Suc k * (py prev - targetY l9)"
    using sy a iter_py [where l=l9 and n=k and p=prev] by simp
  have ax: "\<bar>px (?xs ! Suc k) - targetX l9\<bar> = 0.7 ^ Suc k * \<bar>px prev - targetX l9\<bar>"
    unfolding cx by (simp add: abs_mult)
  have ay: "\<bar>py (?xs ! Suc k) - targetY l9\<bar> = 0.7 ^ Suc k * \<bar>py prev - targetY l9\<bar>"
    unfolding cy by (simp add: abs_mult)
  have ex: "px (?xs ! Suc k) = px (?xs ! k) + (targetX l9 - px (?xs ! k)) * 0.3"
    using sx by (simp add: algebra_simps)
  have ey: "py (?xs ! Suc k) = py (?xs ! k) + (targetY l9 - py (?xs ! k)) * 0.3"
    using sy by (simp add: algebra_simps)
  show "let xs = ?xs; a = xs ! k; b = xs ! Suc k
           in px b = px a + (targetX l9 - px a) * 0.3
            \<and> py b = py a + (targetY l9 - py a) * 0.3
            \<and> (px a \<le> targetX l9 \<longrightarrow> px a \<le> px b \<and> px b \<le> targetX l9)
            \<and> (targetX l9 \<le> px a \<longrightarrow> targetX l9 \<le> px b \<and> px b \<le> px a)
            \<and> (py a \<le> targetY l9 \<longrightarrow> py a \<le> py b \<and> py b \<le> targetY l9)
            \<and> (targetY l9 \<le> py a \<longrightarrow> targetY l9 \<le> py b \<and> py b \<le> py a)
            \<and> \<bar>px b - targetX l9\<bar> = 0.7 ^ Suc k * \<bar>px prev - targetX l9\<bar>
            \<and> \<bar>py b - targetY l9\<bar> = 0.7 ^ Suc k * \<bar>py prev - targetY l9\<bar>"
    unfolding Let_def
    using ex ey ema_step_between [OF sx] ema_step_between [OF sy] ax ay
    by blast
next
  fix e :: real assume e: "0 < e"
  from ema_reaches [OF e, of "px prev - targetX l9"] obtain N1 where
    n1: "\<forall>n\<ge>N1. \<bar>0.7 ^ n * (px prev - targetX l9)\<bar> < e" by blast
  from ema_reaches [OF e, of "py prev - targetY l9"] obtain N2 where
    n2: "\<forall>n\<ge>N2. \<bar>0.7 ^ n * (py prev - targetY l9)\<bar> < e" by blast
  show "\<exists>N. \<forall>fs. (\<forall>res\<in>set fs. handFrame l9 res) \<and> N \<le> length fs \<longrightarrow>
          \<bar>px (fst (runFrames fs prev)) - targetX l9\<bar> < e
        \<and> \<bar>py (fst (runFrames fs prev)) - targetY l9\<bar> < e"
  proof (intro exI [of _ "max N1 N2"] allI impI)
    fix fs assume h: "(\<forall>res\<in>set fs. handFrame l9 res) \<and> max N1 N2 \<le> length fs"
    then have f: "fst (runFrames fs prev) = (smoothPosition l9 ^^ length fs) prev"
      using runFrames_handFrames [of fs l9 prev] by simp
    from h have "N1 \<le> length fs" "N2 \<le> length fs" by simp_all
    with n1 n2 show "\<bar>px (fst (runFrames fs prev)) - targetX l9\<bar> < e
        \<and> \<bar>py (fst (runFrames fs prev)) - targetY l9\<bar> < e"
      unfolding f iter_px iter_py by simp
  qed
qed

theorem C8_ema_witness:
  "px (reportedPositions (snd (runFrames
        [\<lparr>multiHandLandmarks = Some [replicate 21 (Landmark 0 0 0)]\<rparr>,
         \<lparr>multiHandLandmarks = Some [replicate 21 (Landmark 0 0 0)]\<rparr>] (Point2 0 0))) ! 0) = 3 / 10
 \<and> px (reportedPositions (snd (runFrames
        [\<lparr>multiHandLandmarks = Some [replicate 21 (Landmark 0 0 0)]\<rparr>,
         \<lparr>multiHandLandmarks = Some [replicate 21 (Landmark 0 0 0)]\<rparr>] (Point2 0 0))) ! 1) = 51 / 100
 \<and> targetX (Landmark 0 0 0) = 1"
  using C8_ema [of "[\<lparr>multiHandLandmarks = Some [replicate 21 (Landmark 0 0 0)]\<rparr>,
         \<lparr>multiHandLandmarks = Some [replicate 21 (Landmark 0 0 0)]\<rparr>]" "Landmark 0 0 0" "Point2 0 0"]
  by (simp add: handFrame_def onResults_def smoothPosition_def targetX_def targetY_def
      SMOOTH_FACTOR_def classify_def curledCount_def isCurled_def dist_def Let_def)

text \<open>
  Claim C7. For every frame with no hand detected (\<open>multiHandLandmarks\<close> missing or
  empty), the callback reports all three flags false, \<open>pinchDistance = 1\<close> and
  \<open>handPosition = (0, 0)\<close>, and leaves the stored position \<open>prevPos\<close> as it
  was: a following frame has the outcome it would have had without the lost frame, so a
  detected hand is smoothed from the position stored before the loss, not from
  \<open>(0, 0)\<close>.
\<close>

theorem C7_no_hand:
  assumes "multiHandLandmarks res = None \<or> multiHandLandmarks res = Some []"
  shows "onResults res prevPos =
           (prevPos, Inr \<lparr> isFist = False, isOpen = False, isPinching = False,
                           handPosition = Point2 0 0, pinchDistance = 1 \<rparr>)
       \<and> runFrames [res, next] prevPos =
           (fst (onResults next prevPos), [Inr noHand, snd (onResults next prevPos)])
       \<and> (handFrame l9 next \<longrightarrow>
            reportedPositions [snd (onResults next (fst (onResults res prevPos)))]
              = [smoothPosition l9 prevPos])"
proof -
  have a: "onResults res prevPos = (prevPos, Inr noHand)"
    using assms by (auto simp: onResults_def)
  have b: "handFrame l9 next \<longrightarrow>
            reportedPositions [snd (onResults next prevPos)] = [smoothPosition l9 prevPos]"
    using onResults_handFrame [of l9 "next" prevPos] by auto
  show ?thesis
    using a b by (simp add: noHand_def split: prod.splits)
qed

theorem C7_no_hand_witness:
  "onResults \<lparr>multiHandLandmarks = Some []\<rparr> (Point2 (1/2) (1/4)) =
     (Point2 (1/2) (1/4), Inr \<lparr> isFist = False, isOpen = False, isPinching = False,
                           handPosition = Point2 0 0, pinchDistance = 1 \<rparr>)
   \<and> reportedPositions [snd (onResults \<lparr>multiHandLandmarks = Some [replicate 21 (Landmark 0 0 0)]\<rparr>
        (fst (onResults \<lparr>multiHandLandmarks = Some []\<rparr> (Point2 (1/2) (1/4)))))]
      = [Point2 (13/20) (-1/8)]"
  using C7_no_hand [of "\<lparr>multiHandLandmarks = Some []\<rparr>" "Point2 (1/2) (1/4)"
      "\<lparr>multiHandLandmarks = Some [replicate 21 (Landmark 0 0 0)]\<rparr>" "Landmark 0 0 0"]
  by (simp add: handFrame_def onResults_def smoothPosition_def targetX_def targetY_def
      SMOOTH_FACTOR_def classify_def curledCount_def isCurled_def dist_def noHand_def Let_def)

text \<open>
  Claim C2. For every frame with a detected hand (of at least 21 landmarks), the
  classifier reports a gesture state whose flags are: \<open>isPinching\<close> iff the pinch
  distance is below 0.06 and \<open>curledCount < 3\<close>; otherwise \<open>isFist\<close> iff
  \<open>curledCount \<ge> 3\<close>; otherwise \<open>isOpen\<close> iff \<open>curledCount \<le> 1\<close>;
  all three false when \<open>curledCount = 2\<close> without a pinch; at most one flag is true;
  and \<open>curledCount \<ge> 3\<close> with pinch distance at least 0.06 gives \<open>isFist\<close>
  alone.
\<close>

theorem C2_classifier:
  assumes "multiHandLandmarks res = Some (landmarks # others)" and "21 \<le> length landmarks"
  shows "\<exists>g. snd (onResults res prevPos) = Inr g
      \<and> pinchDistance g = dist landmarks 4 8
      \<and> (isPinching g \<longleftrightarrow> dist landmarks 4 8 < 0.06 \<and> curledCount landmarks < 3)
      \<and> (isFist g \<longleftrightarrow> \<not> isPinching g \<and> 3 \<le> curledCount landmarks)
      \<and> (isOpen g \<longleftrightarrow> \<not> isPinching g \<and> \<not> isFist g \<and> curledCount landmarks \<le> 1)
      \<and> (curledCount landmarks = 2 \<and> \<not> dist landmarks 4 8 < 0.06
            \<longrightarrow> \<not> isFist g \<and> \<not> isOpen g \<and> \<not> isPinching g)
      \<and> exclusiveFlags g
      \<and> (3 \<le> curledCount landmarks \<and> 0.06 \<le> dist landmarks 4 8
            \<longrightarrow> isFist g \<and> \<not> isOpen g \<and> \<not> isPinching g)"
  using assms
  by (auto simp: onResults_def classify_def exclusiveFlags_def Let_def split: prod.splits)

theorem C2_classifier_witness:
  "snd (onResults \<lparr>multiHandLandmarks = Some [fistFrame]\<rparr> (Point2 0 0)) =
     Inr \<lparr> isFist = True, isOpen = False, isPinching = False,
           handPosition = Point2 (3/10) (-3/10), pinchDistance = 1 \<rparr>
   \<and> curledCount fistFrame = 4 \<and> dist fistFrame 4 8 = 1"
  using C2_classifier [of "\<lparr>multiHandLandmarks = Some [fistFrame]\<rparr>" fistFrame "[]" "Point2 0 0"]
  by (simp add: fistFrame_def onResults_def smoothPosition_def targetX_def targetY_def
      SMOOTH_FACTOR_def classify_def curledCount_def isCurled_def dist_def Let_def)

section \<open>Properties of the camera fitting\<close>

lemma jsnum_NaN_right [simp]:
  "a + NaN = NaN" "a * NaN = NaN" "a / NaN = NaN" "Math_max a NaN = NaN" "Math_min a NaN = NaN"
  by (cases a; simp)+

lemma AdaptiveCamera_finite:
  assumes "fov camera = Finite f" "0 < f" "f < 180"
      and "width s = Finite w" "height s = Finite h" "0 < w" "0 < h"
  shows "position_z (AdaptiveCamera camera s) =
           Finite (max (max (18 / (2 * tan (f * (pi / 180) / 2)))
                            (14 / (2 * tan (f * (pi / 180) / 2) * (w / h)))) 20)"
proof -
  have a: "0 < f * (pi / 180) / 2" using assms(2) by simp
  have b: "f * (pi / 180) / 2 < pi / 2" using assms(3) by simp
  have t: "0 < tan (f * (pi / 180) / 2)" using tan_gt_zero [OF a b] .
  show ?thesis using t assms by (simp add: AdaptiveCamera_def Math_PI_def Let_def)
qed


lemma camera_distance_antimono:
  fixes t1 t2 r :: real
  assumes "0 < t2" "t2 \<le> t1" "0 < r"
  shows "max (max (18 / (2 * t1)) (14 / (2 * t1 * r))) 20
       \<le> max (max (18 / (2 * t2)) (14 / (2 * t2 * r))) 20"
proof -
  have t1: "0 < t1" using assms by linarith
  have a: "18 / (2 * t1) \<le> 18 / (2 * t2)"
    using assms t1 by (simp add: frac_le)
  have "2 * t2 * r \<le> 2 * t1 * r" using assms by simp
  moreover have "0 < 2 * t2 * r" using assms by simp
  ultimately have b: "14 / (2 * t1 * r) \<le> 14 / (2 * t2 * r)"
    by (intro divide_left_mono) (simp_all add: t1 assms)
  show ?thesis using a b by linarith
qed

text \<open>
  Claim C9. For fields of view strictly between 0 and 180 degrees (0 and \<open>\<pi>\<close> in
  radians) and positive viewport sizes, the recomputed camera distance is the maximum of
  the distance that fits the target height 18, the distance that fits the target width
  14 at the viewport's aspect, and the minimum 20; and of two recomputations at the same
  aspect, the one with the smaller field of view gets a distance at least as large.
\<close>

theorem C9_camera_distance:
  assumes "fov cam1 = Finite f1" and "fov cam2 = Finite f2"
      and "0 < f2" and "f2 \<le> f1" and "f1 < 180"
      and "width s1 = Finite w1" and "height s1 = Finite h1" and "0 < w1" and "0 < h1"
      and "width s2 = Finite w2" and "height s2 = Finite h2" and "0 < w2" and "0 < h2"
      and "w1 / h1 = w2 / h2"
  shows "position_z (AdaptiveCamera cam1 s1) =
           Finite (max (max (18 / (2 * tan (f1 * (pi / 180) / 2)))
                            (14 / (2 * tan (f1 * (pi / 180) / 2) * (w1 / h1)))) 20)
       \<and> (\<exists>d1 d2. position_z (AdaptiveCamera cam1 s1) = Finite d1
                 \<and> position_z (AdaptiveCamera cam2 s2) = Finite d2
                 \<and> d1 \<le> d2)"
proof -
  have f1: "0 < f1" and f2: "f2 < 180" using assms(3-5) by linarith+
  note c1 = AdaptiveCamera_finite [OF assms(1) f1 assms(5) assms(6,7,8,9)]
  note c2 = AdaptiveCamera_finite [OF assms(2) assms(3) f2 assms(10,11,12,13)]
  have lo: "- (pi / 2) < f2 * (pi / 180) / 2" using assms(3)
    by (meson divide_pos_pos less_trans mult_pos_pos neg_less_0_iff_less pi_gt_zero zero_less_numeral)
  have pos: "0 < f2 * (pi / 180) / 2" using assms(3) by simp
  have le: "f2 * (pi / 180) / 2 \<le> f1 * (pi / 180) / 2" using assms(4) by simp
  have hi: "f1 * (pi / 180) / 2 < pi / 2" using assms(5) by simp
  have hi2: "f2 * (pi / 180) / 2 < pi / 2" using f2 by simp
  have t2: "0 < tan (f2 * (pi / 180) / 2)" by (rule tan_gt_zero [OF pos hi2])
  have tt: "tan (f2 * (pi / 180) / 2) \<le> tan (f1 * (pi / 180) / 2)"
    by (rule tan_mono_le [OF lo le hi])
  have r: "0 < w1 / h1" using assms(8,9) by simp
  from camera_distance_antimono [OF t2 tt r]
  show ?thesis unfolding c1 c2 assms(14) [symmetric] by simp
qed

theorem C9_camera_distance_witness:
  "\<exists>d1 d2. position_z (AdaptiveCamera \<lparr>fov = Finite 90, position_z = Finite 25\<rparr>
                         \<lparr>width = Finite 800, height = Finite 600\<rparr>) = Finite d1
         \<and> position_z (AdaptiveCamera \<lparr>fov = Finite 50, position_z = Finite 25\<rparr>
                         \<lparr>width = Finite 400, height = Finite 300\<rparr>) = Finite d2
         \<and> d1 \<le> d2"
proof -
  have "position_z (AdaptiveCamera \<lparr>fov = Finite 90, position_z = Finite 25\<rparr>
                         \<lparr>width = Finite 800, height = Finite 600\<rparr>) =
           Finite (max (max (18 / (2 * tan (90 * (pi / 180) / 2)))
                            (14 / (2 * tan (90 * (pi / 180) / 2) * (800 / 600)))) 20)
       \<and> (\<exists>d1 d2. position_z (AdaptiveCamera \<lparr>fov = Finite 90, position_z = Finite 25\<rparr>
                         \<lparr>width = Finite 800, height = Finite 600\<rparr>) = Finite d1
                 \<and> position_z (AdaptiveCamera \<lparr>fov = Finite 50, position_z = Finite 25\<rparr>
                         \<lparr>width = Finite 400, height = Finite 300\<rparr>) = Finite d2
                 \<and> d1 \<le> d2)"
    by (rule C9_camera_distance [where ?f2.0 = 50 and ?w2.0 = 400 and ?h2.0 = 300]) simp_all
  then show ?thesis by (rule conjunct2)
qed

text \<open>
  Claim C5 says that a zero viewport width, height or field of view is rejected and the
  previous distance and focus scale are kept. The source has no such check: with a field
  of view of 0 the recomputed distance is \<open>Infinity\<close>, which replaces the previous
  distance 25, and with a viewport of width and height 0 the focus scale is NaN.
\<close>

theorem C5_counterexample:
  "position_z (AdaptiveCamera \<lparr>fov = Finite 0, position_z = Finite 25\<rparr>
                 \<lparr>width = Finite 800, height = Finite 600\<rparr>) = Infinity
   \<and> \<not> isFinite (position_z (AdaptiveCamera \<lparr>fov = Finite 0, position_z = Finite 25\<rparr>
                 \<lparr>width = Finite 800, height = Finite 600\<rparr>))
   \<and> position_z (AdaptiveCamera \<lparr>fov = Finite 0, position_z = Finite 25\<rparr>
                 \<lparr>width = Finite 800, height = Finite 600\<rparr>) \<noteq> Finite 25
   \<and> focusScale \<lparr>fov = Finite 50, position_z = Finite 25\<rparr>
                 \<lparr>width = Finite 0, height = Finite 0\<rparr> = NaN"
  by (simp add: AdaptiveCamera_def focusScale_def degToRad_def Math_PI_def isFinite_def Let_def)

lemma focusScale_finite:
  assumes "fov camera = Finite f" "0 < f" "f < 180"
      and "width s = Finite w" "height s = Finite h" "0 < w" "0 < h"
  shows "focusScale camera s =
           Finite (min (2 * tan (f * (pi / 180) / 2) * 4)
                       (2 * tan (f * (pi / 180) / 2) * 4 * (w / h)) * 0.85)"
  using assms by (simp add: focusScale_def degToRad_def Math_PI_def Let_def)

text \<open>
  Claim C5, amended. A recomputation rejects no input and keeps no previous value: the
  distance and the focus scale are always computed by the same formulas. They are finite
  (the distance at least 20, the scale positive) for a field of view strictly between 0
  and 180 degrees with a positive width and a positive or zero height. With a field of
  view of 0 and a positive viewport the distance is \<open>Infinity\<close>; with a width of 0
  and a positive height the distance is \<open>Infinity\<close> and the focus scale is 0; with
  width and height 0 both are NaN.
\<close>

theorem C5_camera_inputs:
  "(fov camera = Finite f \<and> 0 < f \<and> f < 180
      \<and> width s = Finite w \<and> height s = Finite h \<and> 0 < w \<and> 0 < h
      \<longrightarrow> (\<exists>d. position_z (AdaptiveCamera camera s) = Finite d \<and> 20 \<le> d)
        \<and> (\<exists>c. focusScale camera s = Finite c \<and> 0 < c))
 \<and> (fov camera = Finite 0 \<and> width s = Finite w \<and> height s = Finite h \<and> 0 < w \<and> 0 < h
      \<longrightarrow> position_z (AdaptiveCamera camera s) = Infinity)
 \<and> (fov camera = Finite f \<and> 0 < f \<and> f < 180
      \<and> width s = Finite 0 \<and> height s = Finite h \<and> 0 < h
      \<longrightarrow> position_z (AdaptiveCamera camera s) = Infinity \<and> focusScale camera s = Finite 0)
 \<and> (fov camera = Finite f \<and> 0 < f \<and> f < 180
      \<and> width s = Finite w \<and> 0 < w \<and> height s = Finite 0
      \<longrightarrow> (\<exists>d. position_z (AdaptiveCamera camera s) = Finite d \<and> 20 \<le> d)
        \<and> (\<exists>c. focusScale camera s = Finite c \<and> 0 < c))
 \<and> (width s = Finite 0 \<and> height s = Finite 0
      \<longrightarrow> position_z (AdaptiveCamera camera s) = NaN \<and> focusScale camera s = NaN)"
proof (intro conjI impI)
  assume h: "fov camera = Finite f \<and> 0 < f \<and> f < 180
      \<and> width s = Finite w \<and> height s = Finite h \<and> 0 < w \<and> 0 < h"
  then have t: "0 < tan (f * (pi / 180) / 2)" by (intro tan_gt_zero) simp_all
  from h show "\<exists>d. position_z (AdaptiveCamera camera s) = Finite d \<and> 20 \<le> d"
    using AdaptiveCamera_finite [of camera f s w h] by simp
  from h t have "0 < min (2 * tan (f * (pi / 180) / 2) * 4)
                       (2 * tan (f * (pi / 180) / 2) * 4 * (w / h)) * 0.85"
    by simp
  moreover from h have "focusScale camera s =
           Finite (min (2 * tan (f * (pi / 180) / 2) * 4)
                       (2 * tan (f * (pi / 180) / 2) * 4 * (w / h)) * 0.85)"
    by (intro focusScale_finite) simp_all
  ultimately show "\<exists>c. focusScale camera s = Finite c \<and> 0 < c" by blast
next
  assume "fov camera = Finite 0 \<and> width s = Finite w \<and> height s = Finite h \<and> 0 < w \<and> 0 < h"
  then show "position_z (AdaptiveCamera camera s) = Infinity"
    by (simp add: AdaptiveCamera_def Math_PI_def Let_def)
next
  assume h: "fov camera = Finite f \<and> 0 < f \<and> f < 180
      \<and> width s = Finite 0 \<and> height s = Finite h \<and> 0 < h"
  then have t: "0 < tan (f * (pi / 180) / 2)" by (intro tan_gt_zero) simp_all
  from h t show "position_z (AdaptiveCamera camera s) = Infinity"
    by (simp add: AdaptiveCamera_def Math_PI_def Let_def)
  from h t show "focusScale camera s = Finite 0"
    by (simp add: focusScale_def degToRad_def Math_PI_def Let_def)
next
  assume h: "fov camera = Finite f \<and> 0 < f \<and> f < 180
      \<and> width s = Finite w \<and> 0 < w \<and> height s = Finite 0"
  then have t: "0 < tan (f * (pi / 180) / 2)" by (intro tan_gt_zero) simp_all
  from h t show "\<exists>d. position_z (AdaptiveCamera camera s) = Finite d \<and> 20 \<le> d"
    by (simp add: AdaptiveCamera_def Math_PI_def Let_def)
  from h t have "focusScale camera s = Finite (2 * tan (f * (pi / 180) / 2) * 4 * 0.85)"
    by (simp add: focusScale_def degToRad_def Math_PI_def Let_def)
  moreover from t have "0 < 2 * tan (f * (pi / 180) / 2) * 4 * 0.85" by simp
  ultimately show "\<exists>c. focusScale camera s = Finite c \<and> 0 < c" by blast
next
  assume h: "width s = Finite 0 \<and> height s = Finite 0"
  then show "position_z (AdaptiveCamera camera s) = NaN"
    by (simp add: AdaptiveCamera_def Let_def)
  from h show "focusScale camera s = NaN"
    by (simp add: focusScale_def Let_def)
qed


theorem C5_camera_inputs_witness:
  "(\<exists>d. position_z (AdaptiveCamera \<lparr>fov = Finite 50, position_z = Finite 25\<rparr>
                        \<lparr>width = Finite 800, height = Finite 600\<rparr>) = Finite d \<and> 20 \<le> d)
   \<and> position_z (AdaptiveCamera \<lparr>fov = Finite 0, position_z = Finite 25\<rparr>
                        \<lparr>width = Finite 800, height = Finite 600\<rparr>) = Infinity
   \<and> position_z (AdaptiveCamera \<lparr>fov = Finite 50, position_z = Finite 25\<rparr>
                        \<lparr>width = Finite 0, height = Finite 600\<rparr>) = Infinity
   \<and> focusScale \<lparr>fov = Finite 50, position_z = Finite 25\<rparr>
                        \<lparr>width = Finite 0, height = Finite 0\<rparr> = NaN"
proof -
  have a: "\<exists>d. position_z (AdaptiveCamera \<lparr>fov = Finite 50, position_z = Finite 25\<rparr>
                        \<lparr>width = Finite 800, height = Finite 600\<rparr>) = Finite d \<and> 20 \<le> d"
    using C5_camera_inputs [of "\<lparr>fov = Finite 50, position_z = Finite 25\<rparr>" 50
        "\<lparr>width = Finite 800, height = Finite 600\<rparr>" 800 600]
    by simp
  have b: "position_z (AdaptiveCamera \<lparr>fov = Finite 0, position_z = Finite 25\<rparr>
                        \<lparr>width = Finite 800, height = Finite 600\<rparr>) = Infinity"
    using C5_camera_inputs [of "\<lparr>fov = Finite 0, position_z = Finite 25\<rparr>" 0
        "\<lparr>width = Finite 800, height = Finite 600\<rparr>" 800 600]
    by simp
  have c: "position_z (AdaptiveCamera \<lparr>fov = Finite 50, position_z = Finite 25\<rparr>
                        \<lparr>width = Finite 0, height = Finite 600\<rparr>) = Infinity"
    using C5_camera_inputs [of "\<lparr>fov = Finite 50, position_z = Finite 25\<rparr>" 50
        "\<lparr>width = Finite 0, height = Finite 600\<rparr>" 0 600]
    by simp
  have d: "focusScale \<lparr>fov = Finite 50, position_z = Finite 25\<rparr>
                        \<lparr>width = Finite 0, height = Finite 0\<rparr> = NaN"
    using C5_camera_inputs [of "\<lparr>fov = Finite 50, position_z = Finite 25\<rparr>" 50
        "\<lparr>width = Finite 0, height = Finite 0\<rparr>" 0 0]
    by simp
  from a b c d show ?thesis by blast
qed

section \<open>Properties of the transform interpolator\<close>

text \<open>
  Claim C4 says that in FOCUSED mode every object other than the focus target is pushed
  out to 1.5 times its scattered position and shrunk to 0.8 times its scale. The source
  does this for photos only: a ball that is not the focus target keeps its scattered
  position and its scale.
\<close>

theorem C4_counterexample:
  "targetPos (frameTargets sampleCamera sampleSize sampleBall FOCUSED (Some ''photo-1'') None)
     = Vector3 (Finite 2) (Finite 4) (Finite 6)
   \<and> multiplyScalar (positionScattered sampleBall) (Finite 1.5) = Vector3 (Finite 3) (Finite 6) (Finite 9)
   \<and> targetScale (frameTargets sampleCamera sampleSize sampleBall FOCUSED (Some ''photo-1'') None)
     = Finite 0.5
   \<and> scale sampleBall * Finite 0.8 = Finite 0.4
   \<and> targetPos (frameTargets sampleCamera sampleSize sampleBall FOCUSED (Some ''photo-1'') None)
     \<noteq> multiplyScalar (positionScattered sampleBall) (Finite 1.5)
   \<and> targetScale (frameTargets sampleCamera sampleSize sampleBall FOCUSED (Some ''photo-1'') None)
     \<noteq> scale sampleBall * Finite 0.8"
  by (simp add: frameTargets_def sampleBall_def multiplyScalar_def Let_def)

text \<open>
  Claim C4, amended. In FOCUSED mode, for every object that is not the held focus target:
  a photo has the target position \<open>positionScattered * 1.5\<close> and the target scale
  \<open>scale * 0.8\<close>; an object of any other type has its scattered position and its
  scale as targets.
\<close>

theorem C4_focused_nontarget:
  assumes "tid \<noteq> Some (id_obj data)"
  shows "(type_obj data = photo \<longrightarrow>
            targetPos (frameTargets camera sz data FOCUSED tid par)
              = multiplyScalar (positionScattered data) (Finite 1.5)
          \<and> targetScale (frameTargets camera sz data FOCUSED tid par) = scale data * Finite 0.8)
       \<and> (type_obj data \<noteq> photo \<longrightarrow>
            targetPos (frameTargets camera sz data FOCUSED tid par) = positionScattered data
          \<and> targetScale (frameTargets camera sz data FOCUSED tid par) = scale data)"
  using assms by (simp add: frameTargets_def Let_def)

theorem C4_focused_nontarget_witness:
  "targetPos (frameTargets sampleCamera sampleSize samplePhoto FOCUSED (Some ''photo-2'') None)
     = Vector3 (Finite 3) (Finite 6) (Finite 9)
   \<and> targetScale (frameTargets sampleCamera sampleSize samplePhoto FOCUSED (Some ''photo-2'') None)
     = Finite 1.2
   \<and> targetPos (frameTargets sampleCamera sampleSize sampleBall FOCUSED (Some ''photo-2'') None)
     = Vector3 (Finite 2) (Finite 4) (Finite 6)"
  using C4_focused_nontarget [of "Some ''photo-2''" samplePhoto sampleCamera sampleSize None]
    C4_focused_nontarget [of "Some ''photo-2''" sampleBall sampleCamera sampleSize None]
  by (simp add: samplePhoto_def sampleBall_def multiplyScalar_def)



lemma roundDouble_zero [simp]: "roundDouble 0 = 0"
  by (simp add: roundDouble_def)






































section \<open>Properties of the layout generator and the focus selection\<close>

lemma photoObject_id: "photoObject uuids randoms n ui (u, r) = (obj, c1) \<Longrightarrow> id_obj obj = uuids u \<and> type_obj obj = photo \<and> fst c1 = u + 1"
  by (cases ui) (auto simp: photoObject_def Let_def)

lemma ornamentObject_id: "ornamentObject uuids randoms i (u, r) = (obj, c1) \<Longrightarrow> id_obj obj = uuids u \<and> type_obj obj \<noteq> photo \<and> type_obj obj \<noteq> star \<and> fst c1 = u + 1"
  by (auto simp: ornamentObject_def Let_def split: if_splits)

lemma photoObjects_ids:
  "photoObjects uuids randoms n uis (u, r) = (objs, c2) \<Longrightarrow>
     map id_obj objs = map uuids [u ..< u + length uis] \<and> fst c2 = u + length uis
     \<and> (\<forall>obj\<in>set objs. type_obj obj = photo)"
proof (induction uis arbitrary: u r objs c2)
  case Nil
  then show ?case by auto
next
  case (Cons ui rest)
  obtain obj c1 where o: "photoObject uuids randoms n ui (u, r) = (obj, c1)"
    by (cases "photoObject uuids randoms n ui (u, r)")
  obtain u1 r1 where c1: "c1 = (u1, r1)" by (cases c1)
  obtain objs' c2' where p: "photoObjects uuids randoms n rest (u1, r1) = (objs', c2')"
    by (cases "photoObjects uuids randoms n rest (u1, r1)")
  from photoObject_id [OF o] c1 have i: "id_obj obj = uuids u" "type_obj obj = photo" "u1 = u + 1"
    by simp_all
  from Cons.IH [OF p] have ih: "map id_obj objs' = map uuids [u1 ..< u1 + length rest]"
      "fst c2' = u1 + length rest" "\<forall>obj\<in>set objs'. type_obj obj = photo" by simp_all
  from Cons.prems o c1 p have r: "objs = obj # objs'" "c2 = c2'" by simp_all
  have e: "[u ..< u + length (X # rest)] = u # [u + 1 ..< u + 1 + length rest]" for X
    by (simp add: upt_conv_Cons del: upt_Suc)
  show ?case unfolding e using i ih r by (simp del: upt_Suc)
qed

lemma ornamentObjects_ids:
  "ornamentObjects uuids randoms is (u, r) = (objs, c2) \<Longrightarrow>
     map id_obj objs = map uuids [u ..< u + length is] \<and> fst c2 = u + length is
     \<and> (\<forall>obj\<in>set objs. type_obj obj \<noteq> photo)"
proof (induction "is" arbitrary: u r objs c2)
  case Nil
  then show ?case by auto
next
  case (Cons i rest)
  obtain obj c1 where o: "ornamentObject uuids randoms i (u, r) = (obj, c1)"
    by (cases "ornamentObject uuids randoms i (u, r)")
  obtain u1 r1 where c1: "c1 = (u1, r1)" by (cases c1)
  obtain objs' c2' where p: "ornamentObjects uuids randoms rest (u1, r1) = (objs', c2')"
    by (cases "ornamentObjects uuids randoms rest (u1, r1)")
  from ornamentObject_id [OF o] c1 have i: "id_obj obj = uuids u" "type_obj obj \<noteq> photo" "u1 = u + 1"
    by simp_all
  from Cons.IH [OF p] have ih: "map id_obj objs' = map uuids [u1 ..< u1 + length rest]"
      "fst c2' = u1 + length rest" "\<forall>obj\<in>set objs'. type_obj obj \<noteq> photo" by simp_all
  from Cons.prems o c1 p have r: "objs = obj # objs'" "c2 = c2'" by simp_all
  have e: "[u ..< u + length (X # rest)] = u # [u + 1 ..< u + 1 + length rest]" for X
    by (simp add: upt_conv_Cons del: upt_Suc)
  show ?case unfolding e using i ih r by (simp del: upt_Suc)
qed


lemma generateTreeData_ids:
  "map id_obj (generateTreeData uuids randoms photoUrls)
     = map uuids [0 ..< 1 + length photoUrls + baseObjectCount]"
  "map id_obj (filter (\<lambda>obj. type_obj obj = photo) (generateTreeData uuids randoms photoUrls))
     = map uuids [1 ..< 1 + length photoUrls]"
proof -
  obtain ps c1 where p: "photoObjects uuids randoms (length photoUrls)
      (zip photoUrls [0 ..< length photoUrls]) (1, 0) = (ps, c1)"
    by (cases "photoObjects uuids randoms (length photoUrls) (zip photoUrls [0 ..< length photoUrls]) (1, 0)")
  obtain u1 r1 where c1: "c1 = (u1, r1)" by (cases c1)
  obtain os c2 where o: "ornamentObjects uuids randoms [0 ..< baseObjectCount] (u1, r1) = (os, c2)"
    by (cases "ornamentObjects uuids randoms [0 ..< baseObjectCount] (u1, r1)")
  from photoObjects_ids [OF p] c1 have pi: "map id_obj ps = map uuids [1 ..< 1 + length photoUrls]"
     "u1 = 1 + length photoUrls" "\<forall>obj\<in>set ps. type_obj obj = photo" by simp_all
  from ornamentObjects_ids [OF o] have oi: "map id_obj os = map uuids [u1 ..< u1 + baseObjectCount]"
     "\<forall>obj\<in>set os. type_obj obj \<noteq> photo" by simp_all
  have g: "generateTreeData uuids randoms photoUrls = starObject uuids 0 # ps @ os"
    using p c1 o by (simp add: generateTreeData_def Let_def)
  have split: "[0 ..< 1 + length photoUrls + baseObjectCount]
      = 0 # [1 ..< 1 + length photoUrls] @ [1 + length photoUrls ..< 1 + length photoUrls + baseObjectCount]"
  proof -
    have s1: "[0 ..< 1 + length photoUrls + baseObjectCount]
        = [0 ..< 1 + length photoUrls] @ [1 + length photoUrls ..< 1 + length photoUrls + baseObjectCount]"
      by (rule upt_add_eq_append) simp
    have s2: "[0 ..< 1 + length photoUrls] = 0 # [1 ..< 1 + length photoUrls]"
      by (simp add: upt_conv_Cons del: upt_Suc)
    show ?thesis unfolding s1 s2 by simp
  qed
  show "map id_obj (generateTreeData uuids randoms photoUrls)
     = map uuids [0 ..< 1 + length photoUrls + baseObjectCount]"
    unfolding g split using pi oi by (simp add: starObject_def del: upt_Suc)
  have fp: "filter (\<lambda>obj. type_obj obj = photo) ps = ps" using pi(3) by (simp add: filter_id_conv)
  have fo: "filter (\<lambda>obj. type_obj obj = photo) os = []" using oi(2) by (simp add: filter_empty_conv)
  show "map id_obj (filter (\<lambda>obj. type_obj obj = photo) (generateTreeData uuids randoms photoUrls))
     = map uuids [1 ..< 1 + length photoUrls]"
    unfolding g using fp fo pi by (simp add: starObject_def del: upt_Suc)
qed


lemma random_index_bounds:
  fixes r :: real
  assumes "0 \<le> r" "r < 1" "0 < n"
  shows "0 \<le> \<lfloor>r * real n\<rfloor>" and "nat \<lfloor>r * real n\<rfloor> < n"
proof -
  show a: "0 \<le> \<lfloor>r * real n\<rfloor>" using assms by simp
  have "r * real n < real n" using assms by simp
  then have "\<lfloor>r * real n\<rfloor> < int n" by (simp add: floor_less_iff)
  with a show "nat \<lfloor>r * real n\<rfloor> < n" by linarith
qed

lemma random_index_uniform:
  fixes r :: real
  assumes "0 \<le> r" "0 < n"
  shows "nat \<lfloor>r * real n\<rfloor> = i \<longleftrightarrow> real i / real n \<le> r \<and> r < (real i + 1) / real n"
proof -
  have nn: "0 \<le> \<lfloor>r * real n\<rfloor>" using assms by simp
  have "nat \<lfloor>r * real n\<rfloor> = i \<longleftrightarrow> \<lfloor>r * real n\<rfloor> = int i" using nn by linarith
  also have "\<dots> \<longleftrightarrow> real i \<le> r * real n \<and> r * real n < real i + 1"
    by (simp add: floor_eq_iff)
  also have "\<dots> \<longleftrightarrow> real i / real n \<le> r \<and> r < (real i + 1) / real n"
    using assms by (simp add: field_simps)
  finally show ?thesis .
qed

lemma candidates_props:
  assumes "photoObjs s \<noteq> []" and "candidates s = (cands, reset)"
  shows "cands \<noteq> []"
    and "set cands \<subseteq> set (photoObjs s)"
    and "reset \<longleftrightarrow> id_obj ` set (photoObjs s) \<subseteq> viewedPhotoIds s"
    and "\<not> reset \<Longrightarrow> \<forall>p\<in>set cands. id_obj p \<notin> viewedPhotoIds s"
    and "reset \<Longrightarrow> cands = photoObjs s"
    and "\<not> reset \<Longrightarrow> cands = filter (\<lambda>p. id_obj p \<notin> viewedPhotoIds s) (photoObjs s)"
  using assms
  by (auto simp: candidates_def Let_def filter_empty_conv split: if_splits)

lemma focusEffect_select:
  assumes nt: "\<not> truthy (targetPhotoId s)" and ne: "photoObjs s \<noteq> []"
      and r: "0 \<le> r" "r < 1"
  shows "\<exists>c. focusEffect FOCUSED r s =
            Inr (s\<lparr> targetPhotoId := Some c,
                    viewedPhotoIds := insert c (if snd (candidates s) then {} else viewedPhotoIds s) \<rparr>)
           \<and> nat \<lfloor>r * real (length (fst (candidates s)))\<rfloor> < length (fst (candidates s))
           \<and> c = id_obj (fst (candidates s) ! nat \<lfloor>r * real (length (fst (candidates s)))\<rfloor>)
           \<and> c \<in> id_obj ` set (photoObjs s)
           \<and> (\<not> snd (candidates s) \<longrightarrow> c \<notin> viewedPhotoIds s)"
proof -
  obtain cands reset where c: "candidates s = (cands, reset)" by (cases "candidates s")
  note cp = candidates_props [OF ne c]
  have n: "0 < length cands" using cp(1) by simp
  note ib = random_index_bounds [OF r n]
  let ?p = "cands ! nat \<lfloor>r * real (length cands)\<rfloor>"
  have mem: "?p \<in> set cands" using ib(2) by simp
  have e: "focusEffect FOCUSED r s =
            Inr (s\<lparr> targetPhotoId := Some (id_obj ?p),
                    viewedPhotoIds := insert (id_obj ?p) (if reset then {} else viewedPhotoIds s) \<rparr>)"
    using nt ne c ib by (simp add: focusEffect_def Let_def)
  have "id_obj ?p \<in> id_obj ` set (photoObjs s)" using mem cp(2) by blast
  moreover have "\<not> reset \<longrightarrow> id_obj ?p \<notin> viewedPhotoIds s" using mem cp(4) by blast
  ultimately show ?thesis using e ib(2) c by simp
qed

lemma focusEffect_other:
  shows "truthy (targetPhotoId s) \<Longrightarrow> focusEffect FOCUSED r s = Inr s"
    and "photoObjs s = [] \<Longrightarrow> focusEffect FOCUSED r s = Inr s"
    and "m \<noteq> FOCUSED \<Longrightarrow> truthy (targetPhotoId s) \<Longrightarrow> focusEffect m r s = Inr (s\<lparr>targetPhotoId := None\<rparr>)"
    and "m \<noteq> FOCUSED \<Longrightarrow> \<not> truthy (targetPhotoId s) \<Longrightarrow> focusEffect m r s = Inr s"
  by (simp_all add: focusEffect_def)


lemma noRepeat_distinct:
  "distinct xs \<Longrightarrow> noRepeatWithinRounds n xs"
  by (auto simp: noRepeatWithinRounds_def nth_eq_iff_index_eq)

lemma noRepeat_after_full_round:
  assumes "length cur = n" "0 < n" "distinct cur" "noRepeatWithinRounds n ys"
  shows "noRepeatWithinRounds n (cur @ ys)"
  unfolding noRepeatWithinRounds_def
proof (intro allI impI)
  fix j i assume j: "j < length (cur @ ys)" and i: "i < j" and d: "i div n = j div n"
  show "(cur @ ys) ! i \<noteq> (cur @ ys) ! j"
  proof (cases "j < n")
    case True
    then show ?thesis using i assms(1,3) by (simp add: nth_append nth_eq_iff_index_eq)
  next
    case False
    then have jn: "n \<le> j" by simp
    have "i div n \<noteq> 0" using d jn assms(2) by (simp add: div_eq_0_iff)
    then have inn: "n \<le> i" using assms(2) by (simp add: div_eq_0_iff)
    have di: "i div n = Suc ((i - n) div n)" using inn assms(2) by (simp add: le_div_geq)
    have dj: "j div n = Suc ((j - n) div n)" using jn assms(2) by (simp add: le_div_geq)
    have "ys ! (i - n) \<noteq> ys ! (j - n)"
      using assms(4) j i d inn jn di dj assms(1)
      unfolding noRepeatWithinRounds_def
      by (auto dest!: spec [where x = "j - n"] spec [where x = "i - n"])
    then show ?thesis using inn jn assms(1) by (simp add: nth_append)
  qed
qed

lemma focusEffect_objects:
  "focusEffect m r s = Inr s1 \<Longrightarrow> objects s1 = objects s"
  by (auto simp: focusEffect_def Let_def split: if_splits prod.splits)

lemma photoObjs_cong: "objects s1 = objects s \<Longrightarrow> photoObjs s1 = photoObjs s"
  by (simp add: photoObjs_def)


lemma runFocus_rounds:
  assumes "distinct (map id_obj (photoObjs s))"
      and "\<forall>p\<in>set (photoObjs s). id_obj p \<noteq> []"
      and "\<forall>e\<in>set es. 0 \<le> snd e \<and> snd e < 1"
      and "viewedPhotoIds s = set cur" and "distinct cur"
      and "set cur \<subseteq> id_obj ` set (photoObjs s)"
  shows "\<exists>sel s'. runFocus es s = Inr (sel, s')
           \<and> noRepeatWithinRounds (length (photoObjs s)) (cur @ sel)
           \<and> set sel \<subseteq> id_obj ` set (photoObjs s)
           \<and> objects s' = objects s"
  using assms
proof (induction es arbitrary: s cur)
  case Nil
  then show ?case by (simp add: noRepeat_distinct)
next
  case (Cons e rest)
  obtain m r where e: "e = (m, r)" by (cases e)
  from Cons.prems(3) e have r: "0 \<le> r" "r < 1" and rest: "\<forall>e\<in>set rest. 0 \<le> snd e \<and> snd e < 1"
    by simp_all
  let ?n = "length (photoObjs s)"
  let ?P = "id_obj ` set (photoObjs s)"
  show ?case
  proof (cases "m = FOCUSED \<and> \<not> truthy (targetPhotoId s) \<and> photoObjs s \<noteq> []")
    case False
    then obtain s1 where s1: "focusEffect m r s = Inr s1" "viewedPhotoIds s1 = viewedPhotoIds s"
        "objects s1 = objects s" "targetPhotoId s1 = targetPhotoId s \<or> targetPhotoId s1 = None"
      by (cases "m = FOCUSED"; cases "truthy (targetPhotoId s)"; cases "photoObjs s = []")
         (auto simp: focusEffect_other)
    have po: "photoObjs s1 = photoObjs s" using s1(3) by (rule photoObjs_cong)
    from Cons.IH [of s1 cur] Cons.prems rest s1 po
    obtain sel s' where ih: "runFocus rest s1 = Inr (sel, s')"
        "noRepeatWithinRounds ?n (cur @ sel)" "set sel \<subseteq> ?P" "objects s' = objects s"
      by auto
    have "runFocus (e # rest) s = Inr (sel, s')"
      using e s1 ih(1) by auto
    then show ?thesis using ih po by simp
  next
    case True
    then have nt: "\<not> truthy (targetPhotoId s)" and ne: "photoObjs s \<noteq> []" and mf: "m = FOCUSED"
      by simp_all
    from focusEffect_select [OF nt ne r] obtain c where
      c: "focusEffect FOCUSED r s =
            Inr (s\<lparr> targetPhotoId := Some c,
                    viewedPhotoIds := insert c (if snd (candidates s) then {} else viewedPhotoIds s) \<rparr>)"
         "c \<in> ?P" "\<not> snd (candidates s) \<longrightarrow> c \<notin> viewedPhotoIds s"
      by blast
    let ?s1 = "s\<lparr> targetPhotoId := Some c,
                 viewedPhotoIds := insert c (if snd (candidates s) then {} else viewedPhotoIds s) \<rparr>"
    have po: "photoObjs ?s1 = photoObjs s" by (simp add: photoObjs_def)
    have cne: "c \<noteq> []" using c(2) Cons.prems(2) by auto
    have changed: "targetPhotoId ?s1 \<noteq> targetPhotoId s"
      using nt cne by (auto simp: truthy_def split: option.splits)
    have reset_iff: "snd (candidates s) \<longleftrightarrow> ?P \<subseteq> viewedPhotoIds s"
      using candidates_props(3) [OF ne, of "fst (candidates s)" "snd (candidates s)"] by simp
    show ?thesis
    proof (cases "snd (candidates s)")
      case False
      then have cn: "c \<notin> set cur" using c(3) Cons.prems(4) by simp
      have v: "viewedPhotoIds ?s1 = set (cur @ [c])" using False Cons.prems(4) by simp
      from Cons.IH [of ?s1 "cur @ [c]"] Cons.prems rest po v cn c(2)
      obtain sel s' where ih: "runFocus rest ?s1 = Inr (sel, s')"
          "noRepeatWithinRounds ?n ((cur @ [c]) @ sel)" "set sel \<subseteq> ?P" "objects s' = objects s"
        by auto
      have "runFocus (e # rest) s = Inr (c # sel, s')"
        using e mf c(1) ih(1) changed by simp
      then show ?thesis using ih c(2) by simp
    next
      case True
      then have full: "?P \<subseteq> set cur" using reset_iff Cons.prems(4) by simp
      with Cons.prems(6) have eq: "set cur = ?P" by blast
      have "length cur = card (set cur)" using Cons.prems(5) by (simp add: distinct_card)
      also have "\<dots> = card (set (map id_obj (photoObjs s)))" using eq by simp
      also have "\<dots> = ?n" using Cons.prems(1) by (simp add: distinct_card del: set_map)
      finally have len: "length cur = ?n" .
      have npos: "0 < ?n" using ne by simp
      have v: "viewedPhotoIds ?s1 = set [c]" using True by simp
      from Cons.IH [of ?s1 "[c]"] Cons.prems rest po v c(2)
      obtain sel s' where ih: "runFocus rest ?s1 = Inr (sel, s')"
          "noRepeatWithinRounds ?n ([c] @ sel)" "set sel \<subseteq> ?P" "objects s' = objects s"
        by auto
      have run: "runFocus (e # rest) s = Inr (c # sel, s')"
        using e mf c(1) ih(1) changed by simp
      have "noRepeatWithinRounds ?n (cur @ ([c] @ sel))"
        by (rule noRepeat_after_full_round [OF len npos Cons.prems(5) ih(2)])
      then show ?thesis using run ih c(2) by simp
    qed
  qed
qed


lemma photoObjs_distinct:
  "distinct (map id_obj (objects s)) \<Longrightarrow> distinct (map id_obj (photoObjs s))"
  by (simp add: photoObjs_def distinct_map_filter)

lemma candidates_ids:
  assumes "photoObjs s \<noteq> []" and "distinct (map id_obj (objects s))"
  shows "distinct (map id_obj (fst (candidates s)))"
    and "id_obj ` set (fst (candidates s)) =
           (if id_obj ` set (photoObjs s) \<subseteq> viewedPhotoIds s then id_obj ` set (photoObjs s)
            else id_obj ` set (photoObjs s) - viewedPhotoIds s)"
    and "snd (candidates s) \<longleftrightarrow> id_obj ` set (photoObjs s) \<subseteq> viewedPhotoIds s"
proof -
  obtain cands reset where c: "candidates s = (cands, reset)" by (cases "candidates s")
  note cp = candidates_props [OF assms(1) c]
  note d = photoObjs_distinct [OF assms(2)]
  show "distinct (map id_obj (fst (candidates s)))"
    using c cp(5,6) d by (cases reset) (simp_all add: distinct_map_filter)
  show "id_obj ` set (fst (candidates s)) =
           (if id_obj ` set (photoObjs s) \<subseteq> viewedPhotoIds s then id_obj ` set (photoObjs s)
            else id_obj ` set (photoObjs s) - viewedPhotoIds s)"
    using c cp(3,5,6) by (cases reset) auto
  show "snd (candidates s) \<longleftrightarrow> id_obj ` set (photoObjs s) \<subseteq> viewedPhotoIds s"
    using c cp(3) by simp
qed

text \<open>
  Claim C3. For a scene with at least one photo (object identifiers distinct and
  non-empty, as \<open>uuidv4\<close> gives them; \<open>Math.random ()\<close> in \<open>[0, 1)\<close>):
  entering FOCUSED with no target held selects the candidate at index
  \<open>floor (r * n)\<close> of the \<open>n\<close> candidates, which are the photos not yet viewed, or
  all photos when every photo has been viewed; the candidates have distinct identifiers
  and each index is selected exactly for \<open>r\<close> in an interval of length \<open>1 / n\<close>
  (uniform choice); the chosen identifier is added to the viewed set, which is emptied
  first when every photo had been viewed; a held target is kept while the mode is
  FOCUSED and cleared when the mode is not FOCUSED; and in any sequence of renders
  starting with an empty viewed set, the selections, cut into rounds of as many as there
  are photos, never repeat a photo within a round.
\<close>

theorem C3_focus_selection:
  assumes "distinct (map id_obj (objects s))"
      and "\<forall>obj\<in>set (objects s). id_obj obj \<noteq> []"
      and "photoObjs s \<noteq> []"
      and "0 \<le> r" and "r < 1"
      and "\<forall>e\<in>set renders. 0 \<le> snd e \<and> snd e < 1"
  shows "(\<not> truthy (targetPhotoId s) \<longrightarrow>
           (\<exists>c. focusEffect FOCUSED r s =
                  Inr (s\<lparr> targetPhotoId := Some c,
                          viewedPhotoIds :=
                            insert c (if id_obj ` set (photoObjs s) \<subseteq> viewedPhotoIds s
                                      then {} else viewedPhotoIds s) \<rparr>)
              \<and> c = id_obj (fst (candidates s) ! nat \<lfloor>r * real (length (fst (candidates s)))\<rfloor>)
              \<and> c \<in> id_obj ` set (photoObjs s)
              \<and> (\<not> id_obj ` set (photoObjs s) \<subseteq> viewedPhotoIds s \<longrightarrow> c \<notin> viewedPhotoIds s)))
       \<and> distinct (map id_obj (fst (candidates s)))
       \<and> id_obj ` set (fst (candidates s)) =
           (if id_obj ` set (photoObjs s) \<subseteq> viewedPhotoIds s then id_obj ` set (photoObjs s)
            else id_obj ` set (photoObjs s) - viewedPhotoIds s)
       \<and> (\<forall>i<length (fst (candidates s)).
             nat \<lfloor>r * real (length (fst (candidates s)))\<rfloor> = i
               \<longleftrightarrow> real i / real (length (fst (candidates s))) \<le> r
                 \<and> r < (real i + 1) / real (length (fst (candidates s))))
       \<and> (truthy (targetPhotoId s) \<longrightarrow> focusEffect FOCUSED r s = Inr s)
       \<and> (m \<noteq> FOCUSED \<and> truthy (targetPhotoId s) \<longrightarrow>
             focusEffect m r s = Inr (s\<lparr> targetPhotoId := None \<rparr>))
       \<and> (m \<noteq> FOCUSED \<and> targetPhotoId s = None \<longrightarrow> focusEffect m r s = Inr s)
       \<and> (viewedPhotoIds s = {} \<longrightarrow>
             (\<exists>selected s'. runFocus renders s = Inr (selected, s')
                \<and> noRepeatWithinRounds (length (photoObjs s)) selected
                \<and> set selected \<subseteq> id_obj ` set (photoObjs s)))"
proof -
  note ci = candidates_ids [OF assms(3) assms(1)]
  have n: "0 < length (fst (candidates s))"
    using candidates_props(1) [OF assms(3), of "fst (candidates s)" "snd (candidates s)"] by simp
  have a: "\<not> truthy (targetPhotoId s) \<longrightarrow>
           (\<exists>c. focusEffect FOCUSED r s =
                  Inr (s\<lparr> targetPhotoId := Some c,
                          viewedPhotoIds :=
                            insert c (if id_obj ` set (photoObjs s) \<subseteq> viewedPhotoIds s
                                      then {} else viewedPhotoIds s) \<rparr>)
              \<and> c = id_obj (fst (candidates s) ! nat \<lfloor>r * real (length (fst (candidates s)))\<rfloor>)
              \<and> c \<in> id_obj ` set (photoObjs s)
              \<and> (\<not> id_obj ` set (photoObjs s) \<subseteq> viewedPhotoIds s \<longrightarrow> c \<notin> viewedPhotoIds s))"
  proof
    assume nt: "\<not> truthy (targetPhotoId s)"
    from focusEffect_select [OF nt assms(3,4,5)] show "\<exists>c. focusEffect FOCUSED r s =
                  Inr (s\<lparr> targetPhotoId := Some c,
                          viewedPhotoIds :=
                            insert c (if id_obj ` set (photoObjs s) \<subseteq> viewedPhotoIds s
                                      then {} else viewedPhotoIds s) \<rparr>)
              \<and> c = id_obj (fst (candidates s) ! nat \<lfloor>r * real (length (fst (candidates s)))\<rfloor>)
              \<and> c \<in> id_obj ` set (photoObjs s)
              \<and> (\<not> id_obj ` set (photoObjs s) \<subseteq> viewedPhotoIds s \<longrightarrow> c \<notin> viewedPhotoIds s)"
      unfolding ci(3) by blast
  qed
  have u: "\<forall>i<length (fst (candidates s)).
             nat \<lfloor>r * real (length (fst (candidates s)))\<rfloor> = i
               \<longleftrightarrow> real i / real (length (fst (candidates s))) \<le> r
                 \<and> r < (real i + 1) / real (length (fst (candidates s)))"
    using random_index_uniform [OF assms(4) n] by blast
  have t: "viewedPhotoIds s = {} \<longrightarrow>
             (\<exists>selected s'. runFocus renders s = Inr (selected, s')
                \<and> noRepeatWithinRounds (length (photoObjs s)) selected
                \<and> set selected \<subseteq> id_obj ` set (photoObjs s))"
  proof
    assume v: "viewedPhotoIds s = {}"
    have ne: "\<forall>p\<in>set (photoObjs s). id_obj p \<noteq> []" using assms(2) by (simp add: photoObjs_def)
    from runFocus_rounds [OF photoObjs_distinct [OF assms(1)] ne assms(6), of "[]"] v
    show "\<exists>selected s'. runFocus renders s = Inr (selected, s')
                \<and> noRepeatWithinRounds (length (photoObjs s)) selected
                \<and> set selected \<subseteq> id_obj ` set (photoObjs s)"
      by auto
  qed
  show ?thesis
    using a ci(1,2) u t focusEffect_other(1) [of s r] focusEffect_other(3) [of m s r]
      focusEffect_other(4) [of m s r]
    by (simp add: truthy_def)
qed

theorem C3_focus_selection_witness:
  "(\<exists>selected s'. runFocus sampleRenders sampleScene = Inr (selected, s')
       \<and> noRepeatWithinRounds 3 selected
       \<and> set selected \<subseteq> {''A'', ''B'', ''C''})
   \<and> focusEffect FOCUSED 0.5 sampleScene =
        Inr (sampleScene\<lparr> targetPhotoId := Some ''B'', viewedPhotoIds := {''B''} \<rparr>)
   \<and> runFocus sampleRenders sampleScene =
        Inr ([''A'', ''B'', ''C'', ''C''],
             sampleScene\<lparr> viewedPhotoIds := {''C''}, targetPhotoId := Some ''C'' \<rparr>)"
proof -
  have p: "photoObjs sampleScene =
      [samplePhoto\<lparr> id_obj := ''A'' \<rparr>, samplePhoto\<lparr> id_obj := ''B'' \<rparr>, samplePhoto\<lparr> id_obj := ''C'' \<rparr>]"
    by (simp add: photoObjs_def sampleScene_def samplePhoto_def sampleBall_def)
  have h1: "distinct (map id_obj (objects sampleScene))"
    by (simp add: sampleScene_def samplePhoto_def sampleBall_def)
  have h2: "\<forall>obj\<in>set (objects sampleScene). id_obj obj \<noteq> []"
    by (simp add: sampleScene_def samplePhoto_def sampleBall_def)
  have h3: "photoObjs sampleScene \<noteq> []" by (simp add: p)
  have h6: "\<forall>e\<in>set sampleRenders. 0 \<le> snd e \<and> snd e < 1"
    by (simp add: sampleRenders_def)
  have v: "viewedPhotoIds sampleScene = {}" "\<not> truthy (targetPhotoId sampleScene)"
    by (simp_all add: sampleScene_def truthy_def)
  note t = C3_focus_selection [OF h1 h2 h3, of "0.5" sampleRenders, OF _ _ h6]
  have a: "\<exists>selected s'. runFocus sampleRenders sampleScene = Inr (selected, s')
       \<and> noRepeatWithinRounds 3 selected
       \<and> set selected \<subseteq> {''A'', ''B'', ''C''}"
    using t v p by (simp add: numeral_3_eq_3)
  have b: "focusEffect FOCUSED 0.5 sampleScene =
        Inr (sampleScene\<lparr> targetPhotoId := Some ''B'', viewedPhotoIds := {''B''} \<rparr>)"
    by (simp add: sampleScene_def samplePhoto_def sampleBall_def focusEffect_def
      candidates_def photoObjs_def truthy_def Let_def)
  have c: "runFocus sampleRenders sampleScene =
        Inr ([''A'', ''B'', ''C'', ''C''],
             sampleScene\<lparr> viewedPhotoIds := {''C''}, targetPhotoId := Some ''C'' \<rparr>)"
    by (simp add: sampleRenders_def sampleScene_def samplePhoto_def sampleBall_def focusEffect_def
      candidates_def photoObjs_def truthy_def Let_def)
  from a b c show ?thesis by blast
qed


lemma runFocus_held:
  assumes "truthy (targetPhotoId s)"
  shows "runFocus (map (\<lambda>r. (FOCUSED, r)) rs) s = Inr ([], s)"
  by (induction rs) (simp_all add: focusEffect_other(1) [OF assms])

text \<open>
  Claim C10. When the photo list changes while a focus target \<open>tid\<close> is held (the new
  identifiers being fresh: \<open>uuidv4\<close> returns neither \<open>tid\<close> nor an identifier of
  an old object), the regeneration keeps \<open>targetPhotoId = tid\<close>, empties the viewed
  set and replaces every object identifier by a new one, so \<open>tid\<close> is the identifier
  of no object; while the mode stays FOCUSED no selection is made and the state does not
  change; when the mode leaves FOCUSED the target is cleared, and on re-entering FOCUSED
  (with at least one photo) a photo of the new generation is selected.
\<close>

theorem C10_photos_change_while_focused:
  assumes "targetPhotoId s = Some tid" and "tid \<noteq> []"
      and "\<forall>k. uuids k \<noteq> tid \<and> uuids k \<notin> id_obj ` set (objects s)"
  shows "targetPhotoId (photosEffect uuids randoms photos s) = Some tid
       \<and> viewedPhotoIds (photosEffect uuids randoms photos s) = {}
       \<and> map id_obj (objects (photosEffect uuids randoms photos s))
            = map uuids [0 ..< 1 + length photos + baseObjectCount]
       \<and> id_obj ` set (objects (photosEffect uuids randoms photos s)) \<inter> id_obj ` set (objects s) = {}
       \<and> tid \<notin> id_obj ` set (objects (photosEffect uuids randoms photos s))
       \<and> (\<forall>rs. runFocus (map (\<lambda>r. (FOCUSED, r)) rs) (photosEffect uuids randoms photos s)
                  = Inr ([], photosEffect uuids randoms photos s))
       \<and> (m \<noteq> FOCUSED \<longrightarrow>
             focusEffect m r (photosEffect uuids randoms photos s)
               = Inr ((photosEffect uuids randoms photos s)\<lparr> targetPhotoId := None \<rparr>))
       \<and> (photos \<noteq> [] \<and> 0 \<le> r \<and> r < 1 \<longrightarrow>
             (\<exists>c. focusEffect FOCUSED r ((photosEffect uuids randoms photos s)\<lparr> targetPhotoId := None \<rparr>)
                     = Inr ((photosEffect uuids randoms photos s)
                              \<lparr> targetPhotoId := Some c, viewedPhotoIds := {c} \<rparr>)
                \<and> c \<in> uuids ` {1 ..< 1 + length photos}
                \<and> c \<noteq> tid))"
proof -
  let ?s' = "photosEffect uuids randoms photos s"
  have t: "targetPhotoId ?s' = Some tid" and v: "viewedPhotoIds ?s' = {}"
    and o: "objects ?s' = generateTreeData uuids randoms photos"
    using assms(1) by (simp_all add: photosEffect_def)
  have ids: "map id_obj (objects ?s') = map uuids [0 ..< 1 + length photos + baseObjectCount]"
    unfolding o by (rule generateTreeData_ids(1))
  have sub: "id_obj ` set (objects ?s') \<subseteq> range uuids"
  proof -
    have "id_obj ` set (objects ?s') = set (map id_obj (objects ?s'))" by simp
    also have "\<dots> \<subseteq> range uuids" unfolding ids by auto
    finally show ?thesis .
  qed
  have fresh: "\<exists>k. x = uuids k" if "x \<in> id_obj ` set (objects ?s')" for x
    using that sub by auto
  have a3: "uuids k \<noteq> tid" "uuids k \<notin> id_obj ` set (objects s)" for k
    using assms(3) by simp_all
  have disj: "id_obj ` set (objects ?s') \<inter> id_obj ` set (objects s) = {}"
  proof (rule equals0I)
    fix x assume x: "x \<in> id_obj ` set (objects ?s') \<inter> id_obj ` set (objects s)"
    then have x1: "x \<in> id_obj ` set (objects ?s')" and x2: "x \<in> id_obj ` set (objects s)"
      by simp_all
    from fresh [OF x1] obtain k where "x = uuids k" ..
    with x2 a3(2) [of k] show False by simp
  qed
  have stale: "tid \<notin> id_obj ` set (objects ?s')"
  proof
    assume "tid \<in> id_obj ` set (objects ?s')"
    from fresh [OF this] obtain k where "tid = uuids k" ..
    with a3(1) [of k] show False by simp
  qed
  have tr: "truthy (targetPhotoId ?s')" using t assms(2) by (simp add: truthy_def)
  have held: "\<forall>rs. runFocus (map (\<lambda>r. (FOCUSED, r)) rs) ?s' = Inr ([], ?s')"
    using runFocus_held [OF tr] by blast
  have leave: "m \<noteq> FOCUSED \<longrightarrow> focusEffect m r ?s' = Inr (?s'\<lparr> targetPhotoId := None \<rparr>)"
    using focusEffect_other(3) [OF _ tr] by blast
  have reenter: "photos \<noteq> [] \<and> 0 \<le> r \<and> r < 1 \<longrightarrow>
             (\<exists>c. focusEffect FOCUSED r (?s'\<lparr> targetPhotoId := None \<rparr>)
                     = Inr (?s'\<lparr> targetPhotoId := Some c, viewedPhotoIds := {c} \<rparr>)
                \<and> c \<in> uuids ` {1 ..< 1 + length photos}
                \<and> c \<noteq> tid)"
  proof
    assume h: "photos \<noteq> [] \<and> 0 \<le> r \<and> r < 1"
    let ?s0 = "?s'\<lparr> targetPhotoId := None \<rparr>"
    have pids: "map id_obj (photoObjs ?s0) = map uuids [1 ..< 1 + length photos]"
      using generateTreeData_ids(2) [of uuids randoms photos] o by (simp add: photoObjs_def)
    have ne: "photoObjs ?s0 \<noteq> []"
    proof
      assume "photoObjs ?s0 = []"
      with pids have "length [1 ..< 1 + length photos] = 0" by simp
      with h show False by (simp del: upt_Suc)
    qed
    have nt: "\<not> truthy (targetPhotoId ?s0)" by (simp add: truthy_def)
    have v0: "viewedPhotoIds ?s0 = {}" using v by simp
    have pset: "id_obj ` set (photoObjs ?s0) = uuids ` {1 ..< 1 + length photos}"
    proof -
      have "id_obj ` set (photoObjs ?s0) = set (map id_obj (photoObjs ?s0))" by simp
      also have "\<dots> = uuids ` {1 ..< 1 + length photos}"
        unfolding pids by (simp only: set_map set_upt)
      finally show ?thesis .
    qed
    from focusEffect_select [OF nt ne] h obtain c where
      c: "focusEffect FOCUSED r ?s0 =
            Inr (?s0\<lparr> targetPhotoId := Some c,
                    viewedPhotoIds := insert c (if snd (candidates ?s0) then {} else viewedPhotoIds ?s0) \<rparr>)"
         "c \<in> id_obj ` set (photoObjs ?s0)"
      by blast
    have "c \<noteq> tid" using c(2) pset a3(1) by auto
    moreover have "focusEffect FOCUSED r ?s0 = Inr (?s'\<lparr> targetPhotoId := Some c, viewedPhotoIds := {c} \<rparr>)"
      using c(1) v0 by simp
    ultimately show "\<exists>c. focusEffect FOCUSED r ?s0
                     = Inr (?s'\<lparr> targetPhotoId := Some c, viewedPhotoIds := {c} \<rparr>)
                \<and> c \<in> uuids ` {1 ..< 1 + length photos}
                \<and> c \<noteq> tid"
      using c(2) pset by blast
  qed
  show ?thesis by (intro conjI t v ids disj stale held leave reenter)
qed

theorem C10_photos_change_while_focused_witness:
  "targetPhotoId (photosEffect sampleUuids sampleRandoms [''p.png'']
       (sampleScene\<lparr> targetPhotoId := Some ''A'', viewedPhotoIds := {''A''} \<rparr>)) = Some ''A''
   \<and> viewedPhotoIds (photosEffect sampleUuids sampleRandoms [''p.png'']
       (sampleScene\<lparr> targetPhotoId := Some ''A'', viewedPhotoIds := {''A''} \<rparr>)) = {}
   \<and> ''A'' \<notin> id_obj ` set (objects (photosEffect sampleUuids sampleRandoms [''p.png'']
       (sampleScene\<lparr> targetPhotoId := Some ''A'', viewedPhotoIds := {''A''} \<rparr>)))
   \<and> runFocus [(FOCUSED, 0), (FOCUSED, 0.5)] (photosEffect sampleUuids sampleRandoms [''p.png'']
       (sampleScene\<lparr> targetPhotoId := Some ''A'', viewedPhotoIds := {''A''} \<rparr>))
      = Inr ([], photosEffect sampleUuids sampleRandoms [''p.png'']
       (sampleScene\<lparr> targetPhotoId := Some ''A'', viewedPhotoIds := {''A''} \<rparr>))"
proof -
  let ?s = "sampleScene\<lparr> targetPhotoId := Some ''A'', viewedPhotoIds := {''A''} \<rparr>"
  have h1: "targetPhotoId ?s = Some ''A''" by simp
  have h2: "''A'' \<noteq> []" by simp
  have h3: "\<forall>k. sampleUuids k \<noteq> ''A'' \<and> sampleUuids k \<notin> id_obj ` set (objects ?s)"
    by (simp add: sampleUuids_def sampleScene_def samplePhoto_def sampleBall_def)
  note t = C10_photos_change_while_focused [OF h1 h2 h3, of sampleRandoms "[''p.png'']"]
  have "runFocus (map (\<lambda>r. (FOCUSED, r)) [0, 0.5]) (photosEffect sampleUuids sampleRandoms [''p.png''] ?s)
      = Inr ([], photosEffect sampleUuids sampleRandoms [''p.png''] ?s)"
    using t by blast
  then show ?thesis using t by simp
qed

end
